theory Spec2Isabelle
  imports Main "HOL-Library.Char_ord" "HOL-Library.List_Lexorder"
begin

section \<open>Text as the server sees it\<close>

text \<open>
  The server (\<^verbatim>\<open>loggy/lib/server_backend.py\<close>) works on Python \<^verbatim>\<open>str\<close> values. A text is
  modelled as a \<^typ>\<open>string\<close>, one \<^typ>\<open>char\<close> per code point, so the model covers the code
  points below U+0100. On that range the classes used by \<^verbatim>\<open>re\<close> and by the \<^verbatim>\<open>str\<close>
  methods are the ones given here: \<^verbatim>\<open>\d\<close> is \<^verbatim>\<open>0-9\<close>, and \<^verbatim>\<open>\s\<close>, like
  \<^verbatim>\<open>str.isspace\<close>, holds for U+0009..U+000D, U+001C..U+0020, U+0085 and U+00A0.
\<close>

definition code :: "char \<Rightarrow> nat" where
  "code c = of_char c"

definition in_range :: "nat \<Rightarrow> nat \<Rightarrow> char \<Rightarrow> bool" where
  "in_range lo hi c = (lo \<le> code c \<and> code c \<le> hi)"

definition NL :: char where "NL = CHR 0x0A"
definition TAB :: char where "TAB = CHR 0x09"
definition CR :: char where "CR = CHR 0x0D"
definition ESC :: char where "ESC = CHR 0x1B"

text \<open>\<^verbatim>\<open>\d\<close> and \<^verbatim>\<open>[0-9]\<close>.\<close>
definition is_digit :: "char \<Rightarrow> bool" where
  "is_digit c = in_range 48 57 c"

text \<open>\<^verbatim>\<open>\s\<close>, and the characters removed by \<^verbatim>\<open>str.strip()\<close>.\<close>
definition is_space :: "char \<Rightarrow> bool" where
  "is_space c = (in_range 9 13 c \<or> in_range 28 32 c \<or> code c = 133 \<or> code c = 160)"

text \<open>\<^verbatim>\<open>\S\<close>.\<close>
definition not_space :: "char \<Rightarrow> bool" where
  "not_space c = (\<not> is_space c)"

text \<open>\<^verbatim>\<open>.\<close> without the DOTALL flag: any character but the newline.\<close>
definition not_newline :: "char \<Rightarrow> bool" where
  "not_newline c = (c \<noteq> NL)"

text \<open>\<^verbatim>\<open>[a-zA-Z]\<close>.\<close>
definition is_letter :: "char \<Rightarrow> bool" where
  "is_letter c = (in_range 97 122 c \<or> in_range 65 90 c)"

text \<open>\<^verbatim>\<open>[0-9;]\<close>.\<close>
definition is_param :: "char \<Rightarrow> bool" where
  "is_param c = (in_range 48 57 c \<or> c = CHR '';'')"

text \<open>\<^verbatim>\<open>[\x00-\x08\x0b\x0c\x0e-\x1f\x7f]\<close>.\<close>
definition is_stripped_ctl :: "char \<Rightarrow> bool" where
  "is_stripped_ctl c =
     (in_range 0 8 c \<or> code c = 11 \<or> code c = 12 \<or> in_range 14 31 c \<or> code c = 127)"

text \<open>\<^verbatim>\<open>[A-F]\<close>.\<close>
definition is_grade :: "char \<Rightarrow> bool" where
  "is_grade c = in_range 65 70 c"

text \<open>The control characters of ASCII: U+0000..U+001F and U+007F.\<close>
definition is_control :: "char \<Rightarrow> bool" where
  "is_control c = (code c < 32 \<or> code c = 127)"

subsection \<open>The \<^verbatim>\<open>str\<close> methods the server calls\<close>

text \<open>\<^verbatim>\<open>s.startswith(p)\<close>.\<close>
fun startswith :: "string \<Rightarrow> string \<Rightarrow> bool" where
  "startswith s [] = True"
| "startswith [] (p # ps) = False"
| "startswith (c # cs) (p # ps) = (c = p \<and> startswith cs ps)"

text \<open>\<^verbatim>\<open>sub in s\<close>.\<close>
fun contains :: "string \<Rightarrow> string \<Rightarrow> bool" where
  "contains [] sub = (sub = [])"
| "contains (c # cs) sub = (startswith (c # cs) sub \<or> contains cs sub)"

text \<open>\<^verbatim>\<open>s.strip()\<close>.\<close>
definition strip :: "string \<Rightarrow> string" where
  "strip s = rev (dropWhile is_space (rev (dropWhile is_space s)))"

text \<open>\<^verbatim>\<open>s.split(sep)\<close> for a separator of one character: never the empty list.\<close>
fun split :: "char \<Rightarrow> string \<Rightarrow> string list" where
  "split sep [] = [[]]"
| "split sep (c # cs) =
     (if c = sep then [] # split sep cs
      else (case split sep cs of
              [] \<Rightarrow> [[c]]
            | w # ws \<Rightarrow> (c # w) # ws))"

text \<open>
  \<^verbatim>\<open>s.lower()\<close>: A-Z, and the upper-case letters U+00C0..U+00DE but the multiplication
  sign U+00D7, move up by 32.
\<close>
definition lower_char :: "char \<Rightarrow> char" where
  "lower_char c =
     (if in_range 65 90 c \<or> (in_range 192 222 c \<and> code c \<noteq> 215)
      then char_of (code c + 32) else c)"

definition lower :: "string \<Rightarrow> string" where
  "lower s = map lower_char s"

text \<open>
  \<^verbatim>\<open>s.upper()\<close>: a-z, and the lower-case letters U+00E0..U+00FE but the division sign
  U+00F7, move down by 32; the sharp s U+00DF becomes \<^verbatim>\<open>SS\<close>. Python sends U+00B5 and
  U+00FF to U+039C and U+0178, which a \<^typ>\<open>char\<close> cannot hold: they stay as they are
  here.
\<close>
definition upper_char :: "char \<Rightarrow> string" where
  "upper_char c =
     (if in_range 97 122 c \<or> (in_range 224 254 c \<and> code c \<noteq> 247)
      then [char_of (code c - 32)]
      else if code c = 223 then ''SS'' else [c])"

definition upper :: "string \<Rightarrow> string" where
  "upper s = concat (map upper_char s)"

text \<open>The value of a text of decimal digits.\<close>
definition digit_value :: "char \<Rightarrow> nat" where
  "digit_value c = code c - 48"

definition decimal :: "string \<Rightarrow> nat" where
  "decimal t = foldl (\<lambda>n c. 10 * n + digit_value c) 0 t"

subsection \<open>Exceptions, and \<^verbatim>\<open>int\<close> of a text\<close>

text \<open>The exceptions that the code modelled here can raise.\<close>
datatype py_error = ValueError | TypeError | OSError

text \<open>
  \<^verbatim>\<open>int(t)\<close> for a text. The white space that \<^verbatim>\<open>int\<close> drops at both ends is not that of
  \<^verbatim>\<open>str.strip\<close>: it is U+0009..U+000D, the space, U+0085 and U+00A0, and not
  U+001C..U+001F. A sign may come first, and the digits may be set apart by single
  underscores. A text of another form raises \<^verbatim>\<open>ValueError\<close>, and so does one of more
  than 4300 digits, the limit of the interpreter as it is delivered
  (\<^verbatim>\<open>sys.get_int_max_str_digits()\<close>).
\<close>

definition is_int_space :: "char \<Rightarrow> bool" where
  "is_int_space c = (in_range 9 13 c \<or> code c = 32 \<or> code c = 133 \<or> code c = 160)"

definition int_strip :: "string \<Rightarrow> string" where
  "int_strip s = rev (dropWhile is_int_space (rev (dropWhile is_int_space s)))"

fun digits_ok :: "string \<Rightarrow> bool" where
  "digits_ok [] = False"
| "digits_ok [c] = is_digit c"
| "digits_ok (c # d # cs) =
     (is_digit c \<and> (if d = CHR ''_'' then digits_ok cs else digits_ok (d # cs)))"

definition unsigned_int :: "string \<Rightarrow> py_error + int" where
  "unsigned_int t =
     (if digits_ok t \<and> length (filter is_digit t) \<le> 4300
      then Inr (int (decimal (filter is_digit t)))
      else Inl ValueError)"

definition py_int :: "string \<Rightarrow> py_error + int" where
  "py_int t =
     (case int_strip t of
        [] \<Rightarrow> Inl ValueError
      | c # cs \<Rightarrow>
          if c = CHR ''-'' then map_sum id uminus (unsigned_int cs)
          else if c = CHR ''+'' then unsigned_int cs
          else unsigned_int (c # cs))"

subsection \<open>Paths\<close>

text \<open>\<^verbatim>\<open>os.path.join(a, b)\<close> and \<^verbatim>\<open>os.path.basename(p)\<close> of \<^verbatim>\<open>posixpath\<close>.\<close>
definition path_join :: "string \<Rightarrow> string \<Rightarrow> string" where
  "path_join a b =
     (if startswith b ''/'' then b
      else if a = [] \<or> last a = CHR ''/'' then a @ b
      else a @ ''/'' @ b)"

definition basename :: "string \<Rightarrow> string" where
  "basename p = rev (takeWhile (\<lambda>c. c \<noteq> CHR ''/'') (rev p))"

section \<open>The regular expressions of the server\<close>

text \<open>
  The patterns of the server use literals, character classes, greedy and lazy repetition
  of one class, alternation, capture groups and \<^verbatim>\<open>$\<close>. \<^verbatim>\<open>re\<close> matches by backtracking:
  \<open>rmatch r g s\<close> lists, in the order in which the backtracking matcher tries them, every
  way in which \<open>r\<close> matches a prefix of \<open>s\<close>, as the groups captured so far and the rest of
  the text. The match that \<^verbatim>\<open>re\<close> reports at a position is the head of that list.
\<close>

datatype rx =
    Lit string
  | Cls "char \<Rightarrow> bool"
  | Star "char \<Rightarrow> bool"
  | Plus "char \<Rightarrow> bool"
  | LazyStar "char \<Rightarrow> bool"
  | LazyPlus "char \<Rightarrow> bool"
  | Alt rx rx
  | Seq rx rx
  | Grp nat rx
  | Eos

type_synonym groups = "(nat \<times> string) list"

text \<open>The rests after \<^verbatim>\<open>c*\<close>: the longest run first.\<close>
fun star_greedy :: "(char \<Rightarrow> bool) \<Rightarrow> string \<Rightarrow> string list" where
  "star_greedy p [] = [[]]"
| "star_greedy p (c # cs) = (if p c then star_greedy p cs else []) @ [c # cs]"

text \<open>The rests after \<^verbatim>\<open>c*?\<close>: the shortest run first.\<close>
fun star_lazy :: "(char \<Rightarrow> bool) \<Rightarrow> string \<Rightarrow> string list" where
  "star_lazy p [] = [[]]"
| "star_lazy p (c # cs) = (c # cs) # (if p c then star_lazy p cs else [])"

definition plus_greedy :: "(char \<Rightarrow> bool) \<Rightarrow> string \<Rightarrow> string list" where
  "plus_greedy p s = (case s of [] \<Rightarrow> [] | c # cs \<Rightarrow> if p c then star_greedy p cs else [])"

definition plus_lazy :: "(char \<Rightarrow> bool) \<Rightarrow> string \<Rightarrow> string list" where
  "plus_lazy p s = (case s of [] \<Rightarrow> [] | c # cs \<Rightarrow> if p c then star_lazy p cs else [])"

text \<open>
  \<^verbatim>\<open>$\<close> without the MULTILINE flag matches at the end of the text and before a newline
  that ends the text.
\<close>
fun rmatch :: "rx \<Rightarrow> groups \<Rightarrow> string \<Rightarrow> (groups \<times> string) list" where
  "rmatch (Lit w) g s = (if startswith s w then [(g, drop (length w) s)] else [])"
| "rmatch (Cls p) g s = (case s of [] \<Rightarrow> [] | c # cs \<Rightarrow> if p c then [(g, cs)] else [])"
| "rmatch (Star p) g s = map (Pair g) (star_greedy p s)"
| "rmatch (Plus p) g s = map (Pair g) (plus_greedy p s)"
| "rmatch (LazyStar p) g s = map (Pair g) (star_lazy p s)"
| "rmatch (LazyPlus p) g s = map (Pair g) (plus_lazy p s)"
| "rmatch (Alt a b) g s = rmatch a g s @ rmatch b g s"
| "rmatch (Seq a b) g s = concat (map (\<lambda>m. rmatch b (fst m) (snd m)) (rmatch a g s))"
| "rmatch (Grp n r) g s =
     map (\<lambda>m. ((n, take (length s - length (snd m)) s) # fst m, snd m)) (rmatch r g s)"
| "rmatch Eos g s = (if s = [] \<or> s = [NL] then [(g, s)] else [])"

text \<open>A sequence of patterns, as they are written one after the other.\<close>
fun seqs :: "rx list \<Rightarrow> rx" where
  "seqs [] = Lit []"
| "seqs [r] = r"
| "seqs (r # rs) = Seq r (seqs rs)"

text \<open>
  The match of \<open>r\<close> that begins at the head of \<open>s\<close>, if there is one: the groups and the
  rest of the text.
\<close>
definition match_here :: "rx \<Rightarrow> string \<Rightarrow> (groups \<times> string) option" where
  "match_here r s = (case rmatch r [] s of [] \<Rightarrow> None | m # _ \<Rightarrow> Some m)"

text \<open>The same after the groups \<open>g\<close>: the way that the matcher tries first.\<close>
definition first_match :: "rx \<Rightarrow> groups \<Rightarrow> string \<Rightarrow> (groups \<times> string) option" where
  "first_match r g s = (case rmatch r g s of [] \<Rightarrow> None | m # _ \<Rightarrow> Some m)"

text \<open>\<^verbatim>\<open>m.group(n)\<close>; every group of the patterns below takes part in every match.\<close>
definition group :: "groups \<Rightarrow> nat \<Rightarrow> string" where
  "group g n = (case map_of g n of None \<Rightarrow> [] | Some t \<Rightarrow> t)"

text \<open>\<^verbatim>\<open>re.search(r, s)\<close>: the leftmost match, as its groups.\<close>
fun search :: "rx \<Rightarrow> string \<Rightarrow> groups option" where
  "search r [] = map_option fst (match_here r [])"
| "search r (c # cs) =
     (case match_here r (c # cs) of
        Some m \<Rightarrow> Some (fst m)
      | None \<Rightarrow> search r cs)"

text \<open>
  \<^verbatim>\<open>re.finditer(r, s)\<close>: the matches from left to right, each search beginning where the
  match before it ended. No pattern of the server matches the empty text; after an empty
  match the model moves on by one character.
\<close>
function finditer :: "rx \<Rightarrow> string \<Rightarrow> groups list" where
  "finditer r [] = (case match_here r [] of None \<Rightarrow> [] | Some m \<Rightarrow> [fst m])"
| "finditer r (c # cs) =
     (case match_here r (c # cs) of
        None \<Rightarrow> finditer r cs
      | Some m \<Rightarrow>
          fst m # (if length (snd m) \<le> length cs then finditer r (snd m) else finditer r cs))"
  by pat_completeness auto
termination
  by (relation "measure (\<lambda>(r, s). length s)") auto

text \<open>\<^verbatim>\<open>re.sub(r, '', s)\<close>: the text without the matches that \<^verbatim>\<open>finditer\<close> finds.\<close>
function remove_matches :: "rx \<Rightarrow> string \<Rightarrow> string" where
  "remove_matches r [] = []"
| "remove_matches r (c # cs) =
     (case match_here r (c # cs) of
        None \<Rightarrow> c # remove_matches r cs
      | Some m \<Rightarrow>
          (if length (snd m) \<le> length cs then remove_matches r (snd m)
           else c # remove_matches r cs))"
  by pat_completeness auto
termination
  by (relation "measure (\<lambda>(r, s). length s)") auto

section \<open>Text normalisation\<close>

text \<open>
  \<^verbatim>\<open>
  def strip_ansi(s):
      s = re.sub(r'\x1b\[[0-9;]*[a-zA-Z]', '', s)
      s = re.sub(r'[\x00-\x08\x0b\x0c\x0e-\x1f\x7f]', '', s)
      return s
  \<close>
\<close>

definition ansi_rx :: rx where
  "ansi_rx = seqs [Lit [ESC, CHR ''[''], Star is_param, Cls is_letter]"

definition ctl_rx :: rx where
  "ctl_rx = Cls is_stripped_ctl"

definition strip_ansi :: "string \<Rightarrow> string" where
  "strip_ansi s = remove_matches ctl_rx (remove_matches ansi_rx s)"

section \<open>The session store and the file system\<close>

text \<open>
  \<^verbatim>\<open>
  sessions[sid] = {
      "id": sid, "input_path": input_path,
      "work_dir": sdir, "reports_dir": rdir,
      "state": "loaded", "device_id": "", "analysis_mode": "",
      "stdout": "", "stderr": "",
  }
  \<close>
\<close>

record session =
  sid :: string
  input_path :: string
  work_dir :: string
  reports_dir :: string
  state :: string
  device_id :: string
  analysis_mode :: string
  stdout :: string
  stderr :: string

type_synonym sessions = "string \<rightharpoonup> session"

text \<open>
  What the server asks of the file system: \<^verbatim>\<open>os.path.isdir\<close> and \<^verbatim>\<open>os.path.isfile\<close>
  of a path; the names of the entries of a directory, of every kind and the hidden ones
  too, in the order in which the operating system lists them (no name for a path that
  cannot be listed); \<^verbatim>\<open>os.path.getsize\<close> (\<open>None\<close> when it raises \<^verbatim>\<open>OSError\<close>, as for a
  link to nothing); the lines of a text file and the content of a file (\<open>None\<close> when
  opening or reading it raises); and the type that \<^verbatim>\<open>mimetypes\<close> guesses for a path.
\<close>

record fs =
  isdir :: "string \<Rightarrow> bool"
  isfile :: "string \<Rightarrow> bool"
  listdir :: "string \<Rightarrow> string list"
  getsize :: "string \<Rightarrow> nat option"
  readlines :: "string \<Rightarrow> string list option"
  read_file :: "string \<Rightarrow> string option"
  guess_type :: "string \<Rightarrow> string option"

text \<open>\<^verbatim>\<open>fnmatch\<close> of a name and a pattern made of plain characters and \<^verbatim>\<open>*\<close>.\<close>
fun fnmatch :: "string \<Rightarrow> string \<Rightarrow> bool" where
  "fnmatch [] [] = True"
| "fnmatch (c # cs) [] = False"
| "fnmatch [] (p # ps) = (p = CHR ''*'' \<and> fnmatch [] ps)"
| "fnmatch (c # cs) (p # ps) =
     (if p = CHR ''*'' then fnmatch (c # cs) ps \<or> fnmatch cs (p # ps)
      else c = p \<and> fnmatch cs ps)"

text \<open>
  \<^verbatim>\<open>glob.glob(os.path.join(d, pat))\<close> for a pattern \<open>pat\<close> that does not begin with a dot
  and a directory \<open>d\<close> whose path holds no wildcard character and ends with no slash, as
  the directories of a session do (\<^verbatim>\<open>os.path.join(SESSION_DIR, sid)\<close> and what is joined
  to it): the entries of \<open>d\<close> whose names do not begin with a dot and match the
  pattern, files or not, each joined to \<open>d\<close>, in the order of the listing.
\<close>
definition glob :: "fs \<Rightarrow> string \<Rightarrow> string \<Rightarrow> string list" where
  "glob fsys d pat =
     map (path_join d)
       (filter (\<lambda>n. \<not> startswith n ''.'' \<and> fnmatch n pat) (listdir fsys d))"

section \<open>The result extractor\<close>

text \<open>
  \<^verbatim>\<open>
  for m in re.finditer(r'#\d+\s+(CRITICAL|HIGH|MEDIUM|LOW)\s+(.+?)(?:\n|$)', stdout):
      result["issues"].append({"severity": m.group(1), "title": m.group(2).strip()})
  if not result["issues"]:
      for m in re.finditer(r'\[(CRITICAL|HIGH|MEDIUM|LOW)\]\s+(.+?)(?:\n|$)', stdout):
          result["issues"].append({"severity": m.group(1), "title": m.group(2).strip()})
  \<close>
\<close>

record issue =
  i_severity :: string
  i_title :: string

definition severity_rx :: rx where
  "severity_rx = Alt (Lit ''CRITICAL'') (Alt (Lit ''HIGH'') (Alt (Lit ''MEDIUM'') (Lit ''LOW'')))"

definition line_end_rx :: rx where
  "line_end_rx = Alt (Lit [NL]) Eos"

definition primary_rx :: rx where
  "primary_rx =
     seqs [Lit ''#'', Plus is_digit, Plus is_space, Grp 1 severity_rx, Plus is_space,
           Grp 2 (LazyPlus not_newline), line_end_rx]"

definition bracket_rx :: rx where
  "bracket_rx =
     seqs [Lit ''['', Grp 1 severity_rx, Lit '']'', Plus is_space,
           Grp 2 (LazyPlus not_newline), line_end_rx]"

definition to_issue :: "groups \<Rightarrow> issue" where
  "to_issue m = \<lparr>i_severity = group m 1, i_title = strip (group m 2)\<rparr>"

definition primary_issues :: "string \<Rightarrow> issue list" where
  "primary_issues out = map to_issue (finditer primary_rx out)"

definition bracket_issues :: "string \<Rightarrow> issue list" where
  "bracket_issues out = map to_issue (finditer bracket_rx out)"

definition extract_issues :: "string \<Rightarrow> issue list" where
  "extract_issues out =
     (let issues = primary_issues out
      in if issues = [] then issues @ bracket_issues out else issues)"

text \<open>
  \<^verbatim>\<open>
  m = re.search(r'Health Score:\s*(\d+)\s*/\s*100\s*Grade:\s*([A-F])', stdout)
  if not m:
      m = re.search(r'Health Score:\s*(\d+)/100\s*\(([A-F])\)', stdout)
  if m:
      result["health"] = {"score": int(m.group(1)), "grade": m.group(2)}
  \<close>
  The field starts as the empty dict; \<open>None\<close> stands for the field left as it was, and
  \<open>Inl\<close> for the exception that \<^verbatim>\<open>int\<close> raises.
\<close>

record health =
  score :: int
  grade :: string

definition health_rx1 :: rx where
  "health_rx1 =
     seqs [Lit ''Health Score:'', Star is_space, Grp 1 (Plus is_digit), Star is_space,
           Lit ''/'', Star is_space, Lit ''100'', Star is_space, Lit ''Grade:'',
           Star is_space, Grp 2 (Cls is_grade)]"

definition health_rx2 :: rx where
  "health_rx2 =
     seqs [Lit ''Health Score:'', Star is_space, Grp 1 (Plus is_digit), Lit ''/100'',
           Star is_space, Lit ''('', Grp 2 (Cls is_grade), Lit '')'']"

definition to_health :: "groups \<Rightarrow> py_error + health" where
  "to_health m =
     (case py_int (group m 1) of
        Inl e \<Rightarrow> Inl e
      | Inr n \<Rightarrow> Inr \<lparr>score = n, grade = group m 2\<rparr>)"

definition extract_health :: "string \<Rightarrow> py_error + health option" where
  "extract_health out =
     (let m = (case search health_rx1 out of
                 Some m1 \<Rightarrow> Some m1
               | None \<Rightarrow> search health_rx2 out)
      in case m of
           Some m' \<Rightarrow> map_sum id Some (to_health m')
         | None \<Rightarrow> Inr None)"

text \<open>
  \<^verbatim>\<open>
  m = re.search(r'Device.*?:\s*(\S+)', stdout)
  if m:
      result["device_info"]["device_id"] = m.group(1)
  \<close>
\<close>

definition device_rx :: rx where
  "device_rx =
     seqs [Lit ''Device'', LazyStar not_newline, Lit '':'', Star is_space,
           Grp 1 (Plus not_space)]"

definition extract_device :: "string \<Rightarrow> string option" where
  "extract_device out = map_option (\<lambda>m. group m 1) (search device_rx out)"

text \<open>
  \<^verbatim>\<open>
  for f in sorted(glob.glob(os.path.join(rdir, "*"))):
      bn = os.path.basename(f)
      result["reports"].append({"name": bn, "path": f, "size": os.path.getsize(f)})
  \<close>
  \<open>Inl\<close> is the exception of \<^verbatim>\<open>os.path.getsize\<close>, which ends the loop.
\<close>

record report =
  r_name :: string
  r_path :: string
  r_size :: nat

fun stat_reports :: "fs \<Rightarrow> string list \<Rightarrow> py_error + report list" where
  "stat_reports fsys [] = Inr []"
| "stat_reports fsys (f # fs) =
     (case getsize fsys f of
        None \<Rightarrow> Inl OSError
      | Some n \<Rightarrow>
          (case stat_reports fsys fs of
             Inl e \<Rightarrow> Inl e
           | Inr rs \<Rightarrow> Inr (\<lparr>r_name = basename f, r_path = f, r_size = n\<rparr> # rs)))"

definition list_reports :: "fs \<Rightarrow> string \<Rightarrow> py_error + report list" where
  "list_reports fsys rdir = stat_reports fsys (sort (glob fsys rdir ''*''))"

text \<open>
  \<^verbatim>\<open>parse_session_results\<close>; the fields of the result that are created empty and never
  written (\<^verbatim>\<open>metrics\<close>, \<^verbatim>\<open>status\<close>, \<^verbatim>\<open>timeline\<close>, \<^verbatim>\<open>deep\<close>, \<^verbatim>\<open>signatures\<close>) are left out.
  The function lists the reports, then reads the issues, the health and the device from
  the output. \<open>Inr None\<close> is the \<^verbatim>\<open>None\<close> returned for a session that does not exist,
  \<open>Inl\<close> an exception that leaves the function.
\<close>

record results =
  issues :: "issue list"
  health_of :: "health option"
  reports :: "report list"
  device_info :: "string option"

definition parse_session_results ::
  "fs \<Rightarrow> sessions \<Rightarrow> string \<Rightarrow> py_error + results option"
where
  "parse_session_results fsys ss i =
     (case ss i of
        None \<Rightarrow> Inr None
      | Some s \<Rightarrow>
          (case list_reports fsys (reports_dir s) of
             Inl e \<Rightarrow> Inl e
           | Inr rs \<Rightarrow>
               (case extract_health (stdout s) of
                  Inl e \<Rightarrow> Inl e
                | Inr h \<Rightarrow>
                    Inr (Some \<lparr>issues = extract_issues (stdout s), health_of = h,
                               reports = rs, device_info = extract_device (stdout s)\<rparr>))))"

section \<open>The log search\<close>

text \<open>
  \<^verbatim>\<open>search_logs\<close> runs \<^verbatim>\<open>grep -i -n pattern file\<close> on each parsed file. The model takes
  the outcome of that call as a function of the pattern and of the file: the standard
  output of the process as text, or \<open>None\<close> when \<^verbatim>\<open>subprocess.run\<close> raises (the time
  limit of ten seconds, or an output that is no text), which the bare \<^verbatim>\<open>except\<close> of the
  loop turns into the next file.
\<close>

type_synonym grep = "string \<Rightarrow> string \<Rightarrow> string option"

text \<open>
  A hit is the dict \<^verbatim>\<open>{"file": ..., "line": ...}\<close>; \<open>NotParsed\<close> is the dict
  \<^verbatim>\<open>{"line": "Logs not parsed yet ... run analysis first"}\<close>, which has no file.
\<close>

datatype hit = NotParsed | Hit string string

text \<open>
  \<^verbatim>\<open>
  sev_str = ""
  if severity:
      sev_map = {"E": "|E|", "W": "|W|", "I": "|I|", "C": "|C|", "N": "|N|"}
      sev_str = sev_map.get(severity.upper(), "")
  \<close>
\<close>

definition sev_map :: "string \<rightharpoonup> string" where
  "sev_map = map_of [(''E'', ''|E|''), (''W'', ''|W|''), (''I'', ''|I|''), (''C'', ''|C|''),
                     (''N'', ''|N|'')]"

definition sev_marker :: "string \<Rightarrow> string" where
  "sev_marker severity =
     (if severity \<noteq> []
      then (case sev_map (upper severity) of Some t \<Rightarrow> t | None \<Rightarrow> [])
      else [])"

text \<open>
  \<^verbatim>\<open>
  for line in p.stdout.strip().split("\n"):
      if not line:
          continue
      if severity and sev_str and sev_str not in line:
          continue
      if component and component.lower() not in line.lower():
          continue
      results.append({"file": os.path.basename(f), "line": line[:300]})
      if len(results) >= max_results:
          return results
  \<close>
  \<open>Inl\<close> is the \<^verbatim>\<open>return\<close> inside the loop, \<open>Inr\<close> the end of the loop.
\<close>

fun scan_lines ::
  "string \<Rightarrow> string \<Rightarrow> string \<Rightarrow> int \<Rightarrow> string \<Rightarrow> string list \<Rightarrow> hit list \<Rightarrow> hit list + hit list"
where
  "scan_lines severity sev_str component max_results f [] results = Inr results"
| "scan_lines severity sev_str component max_results f (line # rest) results =
     (if line = [] then scan_lines severity sev_str component max_results f rest results
      else if severity \<noteq> [] \<and> sev_str \<noteq> [] \<and> \<not> contains line sev_str
        then scan_lines severity sev_str component max_results f rest results
      else if component \<noteq> [] \<and> \<not> contains (lower line) (lower component)
        then scan_lines severity sev_str component max_results f rest results
      else (let results' = results @ [Hit (basename f) (take 300 line)]
            in if int (length results') \<ge> max_results then Inl results'
               else scan_lines severity sev_str component max_results f rest results'))"

text \<open>
  \<^verbatim>\<open>
  for f in sorted(glob.glob(os.path.join(parsed_dir, "*.parsed"))):
      try:
          cmd = ["grep", "-i", "-n", pattern, f]
          p = subprocess.run(cmd, capture_output=True, text=True, timeout=10)
          for line in ...
      except:
          pass
  return results
  \<close>
\<close>

fun scan_files ::
  "grep \<Rightarrow> string \<Rightarrow> string \<Rightarrow> string \<Rightarrow> string \<Rightarrow> int \<Rightarrow> string list \<Rightarrow> hit list \<Rightarrow> hit list"
where
  "scan_files grep pattern severity sev_str component max_results [] results = results"
| "scan_files grep pattern severity sev_str component max_results (f # fs) results =
     (case grep pattern f of
        None \<Rightarrow> scan_files grep pattern severity sev_str component max_results fs results
      | Some out \<Rightarrow>
          (case scan_lines severity sev_str component max_results f (split NL (strip out))
                  results of
             Inl r \<Rightarrow> r
           | Inr r \<Rightarrow> scan_files grep pattern severity sev_str component max_results fs r))"

text \<open>
  \<^verbatim>\<open>
  def search_logs(sid, pattern, severity="", component="", after="", before="", max_results=50):
      s = sessions.get(sid)
      if not s:
          return []
      work = s["work_dir"]
      parsed_dir = os.path.join(work, "parsed")
      if not os.path.isdir(parsed_dir):
          return [{"line": "Logs not parsed yet ... run analysis first"}]
      results = []
      ...
  \<close>
\<close>

definition search_logs ::
  "grep \<Rightarrow> fs \<Rightarrow> sessions \<Rightarrow> string \<Rightarrow> string \<Rightarrow> string \<Rightarrow> string \<Rightarrow> string \<Rightarrow> string \<Rightarrow> int
     \<Rightarrow> hit list"
where
  "search_logs grep fsys ss i pattern severity component after before max_results =
     (case ss i of
        None \<Rightarrow> []
      | Some s \<Rightarrow>
          (let parsed_dir = path_join (work_dir s) ''parsed''
           in if \<not> isdir fsys parsed_dir then [NotParsed]
              else scan_files grep pattern severity (sev_marker severity) component
                     max_results (sort (glob fsys parsed_dir ''*.parsed'')) []))"

section \<open>The process runner\<close>

text \<open>
  \<^verbatim>\<open>subprocess.run(cmd, capture_output=True, timeout=timeout, ...)\<close> ends in one of three
  ways: the process completes, with its return code and its two outputs (decoded with
  \<^verbatim>\<open>errors="replace"\<close>, which never raises); the time limit passes and \<^verbatim>\<open>TimeoutExpired\<close>
  is raised; or another exception is raised, of which \<^verbatim>\<open>str(e)\<close> is kept. The analyzer is
  a program outside the server: the model takes it as a function of the command, of the
  time limit and of the file system, which gives the outcome and the file system it
  leaves.
\<close>

datatype outcome = Completed int string string | TimeoutExpired | Raised string

type_synonym process = "string list \<Rightarrow> nat \<Rightarrow> fs \<Rightarrow> outcome \<times> fs"

text \<open>The default of \<^verbatim>\<open>os.environ.get("IOTECHA_ANALYZER", "./analyzer.sh")\<close>.\<close>
definition ANALYZER :: string where
  "ANALYZER = ''./analyzer.sh''"

text \<open>\<^verbatim>\<open>"{}".format(n)\<close> for a number that is not negative.\<close>
function str_nat :: "nat \<Rightarrow> string" where
  "str_nat n = (if n < 10 then [char_of (48 + n)] else str_nat (n div 10) @ [char_of (48 + n mod 10)])"
  by pat_completeness auto
termination
  by (relation "measure id") auto

declare str_nat.simps [simp del]

text \<open>
  \<^verbatim>\<open>
  def run_analyzer(args, timeout=120):
      cmd = ["bash", ANALYZER] + args
      try:
          p = subprocess.run(cmd, capture_output=True, timeout=timeout, ...)
          stdout = p.stdout.decode("utf-8", errors="replace")
          stderr = p.stderr.decode("utf-8", errors="replace")
          return p.returncode, stdout, stderr
      except subprocess.TimeoutExpired:
          return 124, "", "Timeout after {}s".format(timeout)
      except Exception as e:
          return 1, "", str(e)
  \<close>
\<close>

definition run_analyzer ::
  "process \<Rightarrow> string list \<Rightarrow> nat \<Rightarrow> fs \<Rightarrow> (int \<times> string \<times> string) \<times> fs"
where
  "run_analyzer proc args timeout fsys =
     (case proc ([''bash'', ANALYZER] @ args) timeout fsys of
        (Completed returncode out err, fsys') \<Rightarrow> ((returncode, out, err), fsys')
      | (TimeoutExpired, fsys') \<Rightarrow>
          ((124, [], ''Timeout after '' @ str_nat timeout @ ''s''), fsys')
      | (Raised e, fsys') \<Rightarrow> ((1, [], e), fsys'))"

section \<open>The analysis request\<close>

text \<open>
  The branch of \<^verbatim>\<open>do_POST\<close> for \<^verbatim>\<open>/api/analyze\<close>, from the body that \<^verbatim>\<open>json.loads\<close> has
  read: the session identifier, the mode and the three flags as their truth values.
  \<^verbatim>\<open>
  if sid not in sessions:
      self._json({"error": "Session not found"}, 404); return
  s = sessions[sid]
  args = ["-q", "--no-color", "--mode", mode, "-o", s["reports_dir"]]
  if web: args.append("--web")
  if mail: args.append("--mail")
  if tickets: args.append("--tickets")
  args.append(s["input_path"])
  s["state"] = "analyzing"
  s["analysis_mode"] = mode
  rc, out, err = run_analyzer(args, timeout=180)
  out = strip_ansi(out); err = strip_ansi(err)
  s["stdout"] = out; s["stderr"] = err
  s["state"] = "done" if rc == 0 else "error"
  m = re.search(r'Device.*?:\s*(\S+)', out)
  if m: s["device_id"] = m.group(1)
  reports = [os.path.basename(f) for f in glob.glob(os.path.join(s["reports_dir"], "*"))]
  ok = len(reports) > 0
  if ok: s["state"] = "done"
  self._json({"ok": ok, "exit_code": rc, "output": out, "errors": err,
              "reports": reports, "session_id": sid})
  \<close>
\<close>

record analyze_body =
  b_session_id :: string
  b_mode :: string
  b_web :: bool
  b_mail :: bool
  b_tickets :: bool

record analyze_reply =
  a_ok :: bool
  a_exit_code :: int
  a_output :: string
  a_errors :: string
  a_reports :: "string list"
  a_session_id :: string

text \<open>\<^verbatim>\<open>self._json({"error": msg}, code)\<close>, or \<^verbatim>\<open>self._json(data)\<close> with the code 200.\<close>
datatype 'a reply = Error nat string | Ok 'a

definition analyze_args :: "session \<Rightarrow> analyze_body \<Rightarrow> string list" where
  "analyze_args s body =
     [''-q'', ''--no-color'', ''--mode'', b_mode body, ''-o'', reports_dir s]
     @ (if b_web body then [''--web''] else [])
     @ (if b_mail body then [''--mail''] else [])
     @ (if b_tickets body then [''--tickets''] else [])
     @ [input_path s]"

definition analyze ::
  "process \<Rightarrow> fs \<Rightarrow> sessions \<Rightarrow> analyze_body \<Rightarrow> analyze_reply reply \<times> sessions \<times> fs"
where
  "analyze proc fsys ss body =
     (case ss (b_session_id body) of
        None \<Rightarrow> (Error 404 ''Session not found'', ss, fsys)
      | Some s \<Rightarrow>
          (let args = analyze_args s body;
               s1 = s\<lparr>state := ''analyzing'', analysis_mode := b_mode body\<rparr>;
               ran = run_analyzer proc args 180 fsys;
               rc = fst (fst ran);
               out = strip_ansi (fst (snd (fst ran)));
               err = strip_ansi (snd (snd (fst ran)));
               fsys' = snd ran;
               s2 = s1\<lparr>stdout := out, stderr := err,
                       state := (if rc = 0 then ''done'' else ''error'')\<rparr>;
               s3 = (case search device_rx out of
                       Some m \<Rightarrow> s2\<lparr>device_id := group m 1\<rparr>
                     | None \<Rightarrow> s2);
               reports = map basename (glob fsys' (reports_dir s3) ''*'');
               ok = (length reports > 0);
               s4 = (if ok then s3\<lparr>state := ''done''\<rparr> else s3)
           in (Ok \<lparr>a_ok = ok, a_exit_code = rc, a_output = out, a_errors = err,
                    a_reports = reports, a_session_id = b_session_id body\<rparr>,
               ss(b_session_id body \<mapsto> s4), fsys')))"

section \<open>The components of a session\<close>






section \<open>The session routes of \<^verbatim>\<open>do_GET\<close>\<close>







section \<open>The signature catalog\<close>

text \<open>
  An entry of the catalog. The last three fields are the keys that only the entries of
  the registry have.
\<close>

record signature =
  g_pattern :: string
  g_component :: string
  g_severity :: string
  g_title :: string
  g_root_cause :: string
  g_fix :: string
  g_kb_url :: string
  g_source :: string
  g_module :: "string option"
  g_errorType :: "string option"
  g_onSiteRequired :: "string option"

text \<open>
  \<^verbatim>\<open>
  for line in f:
      line = line.strip()
      if not line or line.startswith("#"):
          continue
      parts = line.split("\t")
      if len(parts) >= 6:
          sigs.append({
              "pattern": parts[0], "component": parts[1],
              "severity": parts[2], "title": parts[3],
              "root_cause": parts[4], "fix": parts[5],
              "kb_url": parts[6] if len(parts) > 6 else "",
              "source": "signatures"
          })
  \<close>
\<close>

fun signatures_loop :: "string list \<Rightarrow> signature list \<Rightarrow> signature list" where
  "signatures_loop [] sigs = sigs"
| "signatures_loop (raw # rest) sigs =
     (let line = strip raw
      in if line = [] \<or> startswith line ''#'' then signatures_loop rest sigs
         else (let parts = split TAB line
               in if length parts \<ge> 6
                  then signatures_loop rest
                         (sigs @ [\<lparr>g_pattern = parts ! 0, g_component = parts ! 1,
                                   g_severity = parts ! 2, g_title = parts ! 3,
                                   g_root_cause = parts ! 4, g_fix = parts ! 5,
                                   g_kb_url = (if length parts > 6 then parts ! 6 else []),
                                   g_source = ''signatures'', g_module = None,
                                   g_errorType = None, g_onSiteRequired = None\<rparr>])
                  else signatures_loop rest sigs))"

text \<open>
  The registry names its columns in a header. \<^verbatim>\<open>col_map\<close> is the dict
  \<^verbatim>\<open>{name.strip(): idx for idx, name in enumerate(parts)}\<close>, kept as the list of its items
  in the order of the header; where a name comes twice the later index is the one the
  dict holds, so \<open>dict_get\<close> reads the list from its end.
  \<^verbatim>\<open>
  def col(name, default=""):
      idx = col_map.get(name)
      if idx is not None and idx < len(parts):
          return parts[idx]
      return default
  \<close>
\<close>

definition dict_get :: "(string \<times> 'v) list \<Rightarrow> string \<Rightarrow> 'v option" where
  "dict_get d k = map_of (rev d) k"

definition header_map :: "string list \<Rightarrow> (string \<times> nat) list" where
  "header_map parts = zip (map strip parts) [0..<length parts]"

definition col :: "(string \<times> nat) list \<Rightarrow> string list \<Rightarrow> string \<Rightarrow> string \<Rightarrow> string" where
  "col col_map parts name dflt =
     (case dict_get col_map name of
        Some idx \<Rightarrow> if idx < length parts then parts ! idx else dflt
      | None \<Rightarrow> dflt)"

text \<open>
  \<^verbatim>\<open>
  sigs.append({
      "pattern": col("name"),
      "component": col("module"),
      "severity": col("severity", "MEDIUM"),
      "title": col("description"),
      "root_cause": col("description"),
      "fix": col("troubleshootingSteps"),
      "kb_url": "",
      "source": "registry",
      "module": col("module"),
      "errorType": col("errorType"),
      "onSiteRequired": col("onSiteServiceRequired", "false")
  })
  \<close>
\<close>

definition registry_entry :: "(string \<times> nat) list \<Rightarrow> string list \<Rightarrow> signature" where
  "registry_entry col_map parts =
     \<lparr>g_pattern = col col_map parts ''name'' [],
      g_component = col col_map parts ''module'' [],
      g_severity = col col_map parts ''severity'' ''MEDIUM'',
      g_title = col col_map parts ''description'' [],
      g_root_cause = col col_map parts ''description'' [],
      g_fix = col col_map parts ''troubleshootingSteps'' [],
      g_kb_url = [],
      g_source = ''registry'',
      g_module = Some (col col_map parts ''module'' []),
      g_errorType = Some (col col_map parts ''errorType'' []),
      g_onSiteRequired = Some (col col_map parts ''onSiteServiceRequired'' ''false'')\<rparr>"

text \<open>
  \<^verbatim>\<open>
  col_map = {}
  for line in f:
      line = line.strip()
      if not line or line.startswith("#"):
          continue
      parts = line.split("\t")
      if not col_map:
          col_map = {name.strip(): idx for idx, name in enumerate(parts)}
          continue
      ...
      if len(parts) >= 4:
          sigs.append({...})
  \<close>
\<close>

fun registry_loop ::
  "(string \<times> nat) list \<Rightarrow> string list \<Rightarrow> signature list \<Rightarrow> signature list"
where
  "registry_loop col_map [] sigs = sigs"
| "registry_loop col_map (raw # rest) sigs =
     (let line = strip raw
      in if line = [] \<or> startswith line ''#'' then registry_loop col_map rest sigs
         else (let parts = split TAB line
               in if col_map = [] then registry_loop (header_map parts) rest sigs
                  else if length parts \<ge> 4
                    then registry_loop col_map rest (sigs @ [registry_entry col_map parts])
                  else registry_loop col_map rest sigs))"

text \<open>
  \<^verbatim>\<open>load_signatures\<close>, from the lines of the two files; \<open>None\<close> is a file for which
  \<^verbatim>\<open>os.path.isfile\<close> is false.
\<close>

definition load_signatures :: "string list option \<Rightarrow> string list option \<Rightarrow> signature list" where
  "load_signatures signatures_file registry_file =
     (let sigs = (case signatures_file of
                    None \<Rightarrow> []
                  | Some lines \<Rightarrow> signatures_loop lines [])
      in case registry_file of
           None \<Rightarrow> sigs
         | Some lines \<Rightarrow> registry_loop [] lines sigs)"

section \<open>Text normalisation, as the specification words it\<close>

text \<open>
  The specification describes the normalisation as the removal of the escape sequences
  \<^verbatim>\<open>ESC [ parameters letter\<close> and of control characters. \<open>csi_length s\<close> is the length of
  the escape sequence at the head of \<open>s\<close>: the two characters ESC and \<^verbatim>\<open>[\<close>, the digits and
  semicolons that follow, and one letter. \<open>drop_sequences\<close> reads the text from the left
  and leaves out each escape sequence it meets (\<open>k\<close> counts the characters of the current
  sequence that are still to be left out); \<open>normalise\<close> then leaves out the characters of
  \<^const>\<open>is_stripped_ctl\<close>.
\<close>

definition csi_length :: "string \<Rightarrow> nat option" where
  "csi_length s =
     (case s of
        e # b # t \<Rightarrow>
          if e = ESC \<and> b = CHR ''[''
          then (case dropWhile is_param t of
                  [] \<Rightarrow> None
                | l # _ \<Rightarrow>
                    if is_letter l then Some (3 + length (takeWhile is_param t)) else None)
          else None
      | _ \<Rightarrow> None)"

fun drop_sequences :: "nat \<Rightarrow> string \<Rightarrow> string" where
  "drop_sequences k [] = []"
| "drop_sequences (Suc k) (c # cs) = drop_sequences k cs"
| "drop_sequences 0 (c # cs) =
     (case csi_length (c # cs) of
        Some n \<Rightarrow> drop_sequences (n - 1) cs
      | None \<Rightarrow> c # drop_sequences 0 cs)"

definition normalise :: "string \<Rightarrow> string" where
  "normalise s = filter (\<lambda>c. \<not> is_stripped_ctl c) (drop_sequences 0 s)"

section \<open>The log search, as the specification words it\<close>

text \<open>
  A line of the output of \<^verbatim>\<open>grep\<close> passes when it is not empty, holds the marker of the
  severity filter if there is one, and holds the component, case ignored, if one is
  given. The hits of a file are its passing lines, cut at 300 characters; the hits of a
  session are those of its parsed files, the files in sorted order.
\<close>

definition passes :: "string \<Rightarrow> string \<Rightarrow> string \<Rightarrow> bool" where
  "passes severity component line =
     (line \<noteq> []
      \<and> (sev_marker severity = [] \<or> contains line (sev_marker severity))
      \<and> (component = [] \<or> contains (lower line) (lower component)))"

definition file_hits :: "grep \<Rightarrow> string \<Rightarrow> string \<Rightarrow> string \<Rightarrow> string \<Rightarrow> hit list" where
  "file_hits grep pattern severity component f =
     (case grep pattern f of
        None \<Rightarrow> []
      | Some out \<Rightarrow>
          map (\<lambda>line. Hit (basename f) (take 300 line))
            (filter (passes severity component) (split NL (strip out))))"

definition all_hits :: "grep \<Rightarrow> fs \<Rightarrow> session \<Rightarrow> string \<Rightarrow> string \<Rightarrow> string \<Rightarrow> hit list" where
  "all_hits grep fsys s pattern severity component =
     concat (map (file_hits grep pattern severity component)
       (sort (glob fsys (path_join (work_dir s) ''parsed'') ''*.parsed'')))"

section \<open>Example data\<close>

text \<open>A file system without entries, and a session whose analysis wrote \<open>out\<close>.\<close>

definition no_files :: fs where
  "no_files =
     \<lparr>isdir = (\<lambda>p. False), isfile = (\<lambda>p. False), listdir = (\<lambda>d. []),
      getsize = (\<lambda>p. None), readlines = (\<lambda>p. None), read_file = (\<lambda>p. None),
      guess_type = (\<lambda>p. None)\<rparr>"

definition session_with :: "string \<Rightarrow> session" where
  "session_with out =
     \<lparr>sid = ''s1'', input_path = ''/in/log.zip'', work_dir = ''/w/s1'',
      reports_dir = ''/w/s1/reports'', state = ''done'', device_id = [],
      analysis_mode = ''standard'', stdout = out, stderr = []\<rparr>"

text \<open>
  A file system in which the session \<^verbatim>\<open>s1\<close> has two parsed files, listed out of order
  among a hidden file and a file of another kind, and the output of \<^verbatim>\<open>grep\<close> on them.
\<close>

definition parsed_files :: fs where
  "parsed_files =
     no_files
       \<lparr>isdir := (\<lambda>p. p = ''/w/s1/parsed''),
        listdir := (\<lambda>d. if d = ''/w/s1/parsed''
                        then [''b.parsed'', ''.c.parsed'', ''notes.txt'', ''a.parsed''] else [])\<rparr>"

definition grep_output :: grep where
  "grep_output pattern f =
     (if f = ''/w/s1/parsed/a.parsed'' then Some (''1:|E| net down'' @ [NL] @ ''4:|W| net slow'' @ [NL])
      else if f = ''/w/s1/parsed/b.parsed'' then Some (''2:|E| disk full'' @ [NL])
      else None)"

text \<open>
  Analyzers: one that runs into the time limit, one that cannot be launched, one that
  ends with the return code 124, one that ends with the return code 1 after it has
  written a report for the session \<^verbatim>\<open>s1\<close>, one that ends with the return code 0 and
  leaves a hidden file as its only report, and one that ends with the return code 1 and
  leaves a directory and no file.
\<close>

definition times_out :: process where
  "times_out cmd timeout fsys = (TimeoutExpired, fsys)"

definition launch_fails :: process where
  "launch_fails cmd timeout fsys = (Raised ''[Errno 2] No such file or directory'', fsys)"

definition exits_124 :: process where
  "exits_124 cmd timeout fsys = (Completed 124 [] [], fsys)"

definition fails_with_report :: process where
  "fails_with_report cmd timeout fsys =
     (Completed 1 (''Device ID: dev42'' @ [NL]) ''parse error'',
      fsys\<lparr>isfile := (\<lambda>p. p = ''/w/s1/reports/report.html'' \<or> isfile fsys p),
           listdir := (\<lambda>d. if d = ''/w/s1/reports'' then [''report.html'']
                           else listdir fsys d)\<rparr>)"

definition writes_hidden_report :: process where
  "writes_hidden_report cmd timeout fsys =
     (Completed 0 [] [],
      fsys\<lparr>isfile := (\<lambda>p. p = ''/w/s1/reports/.report.html'' \<or> isfile fsys p),
           listdir := (\<lambda>d. if d = ''/w/s1/reports'' then [''.report.html'']
                           else listdir fsys d)\<rparr>)"

definition writes_directory :: process where
  "writes_directory cmd timeout fsys =
     (Completed 1 [] ''parse error'',
      fsys\<lparr>isdir := (\<lambda>p. p = ''/w/s1/reports/charts'' \<or> isdir fsys p),
           listdir := (\<lambda>d. if d = ''/w/s1/reports'' then [''charts'']
                           else listdir fsys d)\<rparr>)"

text \<open>What a reply to an analysis request says of \<^verbatim>\<open>ok\<close>, if it is no error.\<close>

definition reply_ok :: "analyze_reply reply \<Rightarrow> bool option" where
  "reply_ok reply = (case reply of Ok r \<Rightarrow> Some (a_ok r) | Error c m \<Rightarrow> None)"

text \<open>
  A file system in which the reports of the session \<^verbatim>\<open>s1\<close> hold a link to nothing, and
  an output whose health score has 4301 digits.
\<close>

definition dangling_report :: fs where
  "dangling_report =
     no_files\<lparr>listdir := (\<lambda>d. if d = ''/w/s1/reports'' then [''latest''] else [])\<rparr>"

definition long_score :: string where
  "long_score = ''Health Score: '' @ replicate 4301 (CHR ''9'') @ ''/100 Grade: '' @ ''B'' @ []"



definition standard_body :: analyze_body where
  "standard_body =
     \<lparr>b_session_id = ''s1'', b_mode = ''standard'', b_web = False, b_mail = False,
      b_tickets = False\<rparr>"

text \<open>
  A registry whose header names four columns, none of them the severity or the on-site
  flag, with a comment, a row of four columns and a row of three.
\<close>

definition registry_lines :: "string list" where
  "registry_lines =
     [''# error registry'' @ [NL],
      ''name'' @ [TAB] @ ''module'' @ [TAB] @ ''description'' @ [TAB] @ ''errorType'' @ [NL],
      ''E1'' @ [TAB] @ ''net'' @ [TAB] @ ''link down'' @ [TAB] @ ''fatal'' @ [NL],
      ''E2'' @ [TAB] @ ''disk'' @ [TAB] @ ''full'' @ [NL]]"

text \<open>The session store that holds the session \<^verbatim>\<open>s1\<close> alone, before its analysis.\<close>

definition one_session :: sessions where
  "one_session = [''s1'' \<mapsto> session_with []]"

text \<open>The store that holds the session \<^verbatim>\<open>s1\<close> alone, after an analysis that wrote \<open>out\<close>.\<close>

definition store_with :: "string \<Rightarrow> sessions" where
  "store_with out = [''s1'' \<mapsto> session_with out]"



section \<open>Properties\<close>

subsection \<open>Text normalisation\<close>

lemma param_not_letter: "is_param c \<Longrightarrow> \<not> is_letter c"
  by (auto simp: is_param_def is_letter_def in_range_def code_def)

lemma star_then_class:
  assumes "\<And>c. p c \<Longrightarrow> \<not> q c"
  shows "rmatch (Seq (Star p) (Cls q)) g t =
         (case dropWhile p t of [] \<Rightarrow> [] | l # rest \<Rightarrow> if q l then [(g, rest)] else [])"
  using assms by (induction t) (auto simp: comp_def)

lemma startswith_2: "startswith s [a, b] = (\<exists>t. s = a # b # t)"
proof (cases s)
  case Nil
  then show ?thesis by simp
next
  case (Cons x xs)
  then show ?thesis by (cases xs) auto
qed

lemma rmatch_ansi_head:
  "rmatch ansi_rx g (ESC # CHR ''['' # t) =
     (case dropWhile is_param t of
        [] \<Rightarrow> []
      | l # rest \<Rightarrow> if is_letter l then [(g, rest)] else [])"
proof -
  have "rmatch ansi_rx g (ESC # CHR ''['' # t) = rmatch (Seq (Star is_param) (Cls is_letter)) g t"
    unfolding ansi_rx_def seqs.simps by (subst rmatch.simps(8)) (simp del: rmatch.simps(8))
  then show ?thesis
    by (simp only: star_then_class [OF param_not_letter])
qed

lemma rmatch_ansi_none:
  "\<not> startswith s [ESC, CHR ''['']  \<Longrightarrow> rmatch ansi_rx g s = []"
  unfolding ansi_rx_def seqs.simps
  by (subst rmatch.simps(8)) simp

lemma dropWhile_length:
  "dropWhile p t = l # rest \<Longrightarrow> length t = length (takeWhile p t) + Suc (length rest)"
  by (induction t) (auto split: if_splits)

lemma dropWhile_drop:
  "dropWhile p t = l # rest \<Longrightarrow> drop (Suc (length (takeWhile p t))) t = rest"
  by (induction t) (auto split: if_splits)

lemma dropWhile_drop3:
  "dropWhile p t = l # rest \<Longrightarrow> drop (3 + length (takeWhile p t)) (a # b # t) = rest"
  using dropWhile_drop [of p t l rest] by (simp add: numeral_3_eq_3)

lemma match_here_ansi:
  "match_here ansi_rx s = (case csi_length s of None \<Rightarrow> None | Some n \<Rightarrow> Some ([], drop n s))"
proof (cases "startswith s [ESC, CHR ''['']")
  case False
  then have "csi_length s = None"
    by (auto simp: csi_length_def split: list.splits)
  with False show ?thesis
    by (simp add: match_here_def rmatch_ansi_none)
next
  case True
  then obtain t where s: "s = ESC # CHR ''['' # t" by (auto simp: startswith_2)
  show ?thesis
  proof (cases "dropWhile is_param t")
    case Nil
    show ?thesis by (simp add: match_here_def rmatch_ansi_head csi_length_def s Nil)
  next
    case (Cons l rest)
    show ?thesis
      by (simp add: match_here_def rmatch_ansi_head csi_length_def s Cons dropWhile_drop3 [OF Cons])
  qed
qed

lemma csi_length_bounds: "csi_length s = Some n \<Longrightarrow> 3 \<le> n \<and> n \<le> length s"
  by (auto simp: csi_length_def dropWhile_length split: list.splits if_splits)

lemma remove_ansi: "remove_matches ansi_rx (drop k s) = drop_sequences k s"
proof (induction k s rule: drop_sequences.induct)
  case (1 k)
  then show ?case by simp
next
  case (2 k c cs)
  then show ?case by simp
next
  case (3 c cs)
  show ?case
  proof (cases "csi_length (c # cs)")
    case None
    with 3 show ?thesis by (simp add: match_here_ansi)
  next
    case (Some n)
    with csi_length_bounds [OF Some] obtain m where n: "n = Suc m" and m: "m \<le> length cs"
      by (cases n) auto
    with 3 Some show ?thesis by (simp add: match_here_ansi)
  qed
qed

lemma remove_ctl: "remove_matches ctl_rx s = filter (\<lambda>c. \<not> is_stripped_ctl c) s"
  by (induction s) (auto simp: ctl_rx_def match_here_def)

lemma strip_ansi_normalise: "strip_ansi s = normalise s"
  using remove_ansi [of 0 s] by (simp add: strip_ansi_def normalise_def remove_ctl)

lemma ESC_stripped: "is_stripped_ctl ESC"
  by (simp add: is_stripped_ctl_def ESC_def in_range_def code_def)

lemma csi_length_no_ESC: "c \<noteq> ESC \<Longrightarrow> csi_length (c # cs) = None"
  by (simp add: csi_length_def split: list.splits)

lemma drop_sequences_clean: "\<forall>c\<in>set s. c \<noteq> ESC \<Longrightarrow> drop_sequences 0 s = s"
  by (induction s) (auto simp: csi_length_no_ESC)

lemma code_inject: "(c = d) = (code c = code d)"
  by (simp add: code_def)

lemma stripped_ctl_iff:
  "is_stripped_ctl c = (is_control c \<and> c \<noteq> TAB \<and> c \<noteq> NL \<and> c \<noteq> CR)"
proof -
  have "code TAB = 9" "code NL = 10" "code CR = 13"
    by (simp_all add: code_def TAB_def NL_def CR_def)
  then have "c = TAB \<longleftrightarrow> code c = 9" "c = NL \<longleftrightarrow> code c = 10" "c = CR \<longleftrightarrow> code c = 13"
    by (simp_all add: code_inject [of c])
  then show ?thesis
    by (auto simp: is_stripped_ctl_def is_control_def in_range_def)
qed

text \<open>
  Claim C3, as the code has it. \<^verbatim>\<open>strip_ansi\<close> removes the escape sequences
  \<^verbatim>\<open>ESC [ parameters letter\<close>, read from the left, and then every character of
  \<^verbatim>\<open>[\x00-\x08\x0b\x0c\x0e-\x1f\x7f]\<close>: it computes \<^const>\<open>normalise\<close>. No character of
  that class is left in the result, a text without such a character is returned as it
  is, and the class holds the control characters except the tab, the newline and the
  carriage return.
\<close>

theorem strip_ansi_spec:
  "strip_ansi s = normalise s
   \<and> (\<forall>c\<in>set (strip_ansi s). \<not> is_stripped_ctl c)
   \<and> ((\<forall>c\<in>set s. \<not> is_stripped_ctl c) \<longrightarrow> strip_ansi s = s)
   \<and> (\<forall>c. is_stripped_ctl c \<longleftrightarrow> is_control c \<and> c \<noteq> TAB \<and> c \<noteq> NL \<and> c \<noteq> CR)"
proof -
  have a: "strip_ansi s = normalise s" by (rule strip_ansi_normalise)
  have b: "\<forall>c\<in>set (strip_ansi s). \<not> is_stripped_ctl c"
    by (simp add: a normalise_def)
  have c: "(\<forall>c\<in>set s. \<not> is_stripped_ctl c) \<longrightarrow> strip_ansi s = s"
  proof
    assume h: "\<forall>c\<in>set s. \<not> is_stripped_ctl c"
    then have "\<forall>c\<in>set s. c \<noteq> ESC" using ESC_stripped by auto
    then have "drop_sequences 0 s = s" by (rule drop_sequences_clean)
    with h show "strip_ansi s = s" by (simp add: a normalise_def filter_id_conv)
  qed
  from a b c stripped_ctl_iff show ?thesis by blast
qed

text \<open>
  A coloured word followed by a carriage return, a tab, a bell and a newline loses the
  two escape sequences and the bell; a text without control characters other than the
  carriage return and the newline is returned unchanged.
\<close>

theorem strip_ansi_spec_witness:
  "strip_ansi ([ESC] @ ''[1;31mred'' @ [ESC] @ ''[0m'' @ [CR, TAB, CHR 0x07, NL]) =
     ''red'' @ [CR, TAB, NL]
   \<and> strip_ansi (''a b'' @ [CR, NL]) = ''a b'' @ [CR, NL]"
proof -
  have n: "normalise ([ESC] @ ''[1;31mred'' @ [ESC] @ ''[0m'' @ [CR, TAB, CHR 0x07, NL]) =
           ''red'' @ [CR, TAB, NL]"
    by code_simp
  have h: "\<forall>c\<in>set (''a b'' @ [CR, NL]). \<not> is_stripped_ctl c"
    by code_simp
  from strip_ansi_spec [of "[ESC] @ ''[1;31mred'' @ [ESC] @ ''[0m'' @ [CR, TAB, CHR 0x07, NL]"]
  have "strip_ansi ([ESC] @ ''[1;31mred'' @ [ESC] @ ''[0m'' @ [CR, TAB, CHR 0x07, NL]) =
        normalise ([ESC] @ ''[1;31mred'' @ [ESC] @ ''[0m'' @ [CR, TAB, CHR 0x07, NL])"
    by (rule conjunct1)
  from this n have r1:
    "strip_ansi ([ESC] @ ''[1;31mred'' @ [ESC] @ ''[0m'' @ [CR, TAB, CHR 0x07, NL]) =
       ''red'' @ [CR, TAB, NL]"
    by (rule trans)
  from strip_ansi_spec [of "''a b'' @ [CR, NL]"] h
  have r2: "strip_ansi (''a b'' @ [CR, NL]) = ''a b'' @ [CR, NL]"
    by blast
  from r1 r2 show ?thesis by (rule conjI)
qed

text \<open>
  Claim C3, as it is stated, fails: the carriage return is a control character, it is
  neither the newline nor the tab, and \<^verbatim>\<open>strip_ansi\<close> keeps it.
\<close>

theorem strip_ansi_keeps_CR:
  "is_control CR \<and> CR \<noteq> NL \<and> CR \<noteq> TAB \<and> CR \<in> set (strip_ansi [CR])"
  by code_simp

subsection \<open>The result extractor\<close>

text \<open>
  Claim C1. For the standard output of every session, the issues of the result are the
  matches of the primary pattern \<^verbatim>\<open>#n SEVERITY title\<close> whenever there is at least one, none
  of the bracketed pattern being added; the matches of the bracketed pattern
  \<^verbatim>\<open>[SEVERITY] title\<close> are the issues only when the primary pattern has no match.
\<close>

theorem issues_never_merged:
  assumes "ss i = Some s" and "parse_session_results fsys ss i = Inr (Some r)"
  shows "(primary_issues (stdout s) \<noteq> [] \<longrightarrow> issues r = primary_issues (stdout s))
         \<and> (primary_issues (stdout s) = [] \<longrightarrow> issues r = bracket_issues (stdout s))"
  using assms
  by (auto simp: parse_session_results_def extract_issues_def Let_def split: sum.splits)

text \<open>
  An output with a line of each convention gives the issue of the primary line alone,
  though the bracketed pattern has a match in it; an output with a bracketed line only
  gives that line.
\<close>

theorem issues_never_merged_witness:
  "map_sum id (map_option issues)
     (parse_session_results no_files
        [''s1'' \<mapsto> session_with (''#1 HIGH a'' @ [NL] @ ''[LOW] b'')] ''s1'')
     = Inr (Some [\<lparr>i_severity = ''HIGH'', i_title = ''a''\<rparr>])
   \<and> bracket_issues (''#1 HIGH a'' @ [NL] @ ''[LOW] b'') = [\<lparr>i_severity = ''LOW'', i_title = ''b''\<rparr>]
   \<and> map_sum id (map_option issues)
       (parse_session_results no_files [''s1'' \<mapsto> session_with ''[LOW] Clock skew''] ''s1'')
     = Inr (Some [\<lparr>i_severity = ''LOW'', i_title = ''Clock skew''\<rparr>])"
proof -
  let ?a = "''#1 HIGH a'' @ [NL] @ ''[LOW] b''"
  let ?b = "''[LOW] Clock skew''"
  have pa: "primary_issues ?a = [\<lparr>i_severity = ''HIGH'', i_title = ''a''\<rparr>]" by code_simp
  have ba: "bracket_issues ?a = [\<lparr>i_severity = ''LOW'', i_title = ''b''\<rparr>]" by code_simp
  have pb: "primary_issues ?b = []" by code_simp
  have bb: "bracket_issues ?b = [\<lparr>i_severity = ''LOW'', i_title = ''Clock skew''\<rparr>]" by code_simp
  have l: "list_reports no_files ''/w/s1/reports'' = Inr []" by code_simp
  have h: "extract_health ?a = Inr None" "extract_health ?b = Inr None" by code_simp+
  obtain ra where ra:
    "parse_session_results no_files [''s1'' \<mapsto> session_with ?a] ''s1'' = Inr (Some ra)"
    using l h(1) by (simp add: parse_session_results_def session_with_def)
  obtain rb where rb:
    "parse_session_results no_files [''s1'' \<mapsto> session_with ?b] ''s1'' = Inr (Some rb)"
    using l h(2) by (simp add: parse_session_results_def session_with_def)
  have sa: "[''s1'' \<mapsto> session_with ?a] ''s1'' = Some (session_with ?a)" by simp
  have sb: "[''s1'' \<mapsto> session_with ?b] ''s1'' = Some (session_with ?b)" by simp
  have oa: "stdout (session_with ?a) = ?a" by (simp add: session_with_def)
  have ob: "stdout (session_with ?b) = ?b" by (simp add: session_with_def)
  from issues_never_merged [OF sa ra] pa
  have "issues ra = [\<lparr>i_severity = ''HIGH'', i_title = ''a''\<rparr>]"
    unfolding oa by simp
  moreover from issues_never_merged [OF sb rb] pb bb
  have "issues rb = [\<lparr>i_severity = ''LOW'', i_title = ''Clock skew''\<rparr>]"
    unfolding ob by simp
  ultimately show ?thesis using ra rb ba by simp
qed

subsection \<open>The log search\<close>

lemma scan_lines_no_marker:
  "scan_lines severity [] component m f ls rs = scan_lines [] [] component m f ls rs"
  by (induction ls arbitrary: rs) (auto simp: Let_def)

lemma scan_files_no_marker:
  "scan_files g pat severity [] component m fs rs = scan_files g pat [] [] component m fs rs"
  by (induction fs arbitrary: rs) (auto simp: scan_lines_no_marker [of severity] split: option.splits sum.splits)

lemma sev_map_keys: "sev_map k = None \<longleftrightarrow> k \<notin> {''E'', ''W'', ''I'', ''C'', ''N''}"
  by (simp add: sev_map_def)

lemma scan_lines_take:
  assumes "int (length rs) < m"
  shows "scan_lines severity (sev_marker severity) component m f ls rs =
     (let hs = rs @ map (\<lambda>line. Hit (basename f) (take 300 line))
                     (filter (passes severity component) ls)
      in if int (length hs) \<ge> m then Inl (take (nat m) hs) else Inr hs)"
  using assms
proof (induction ls arbitrary: rs)
  case Nil
  then show ?case by simp
next
  case (Cons l ls)
  show ?case
  proof (cases "passes severity component l")
    case False
    then have "scan_lines severity (sev_marker severity) component m f (l # ls) rs =
               scan_lines severity (sev_marker severity) component m f ls rs"
      by (auto simp: passes_def sev_marker_def)
    with False Cons show ?thesis by simp
  next
    case True
    let ?rs = "rs @ [Hit (basename f) (take 300 l)]"
    from True have step: "scan_lines severity (sev_marker severity) component m f (l # ls) rs =
               (if int (length ?rs) \<ge> m then Inl ?rs
                else scan_lines severity (sev_marker severity) component m f ls ?rs)"
      by (auto simp: passes_def sev_marker_def Let_def)
    show ?thesis
    proof (cases "int (length ?rs) \<ge> m")
      case full: True
      with Cons.prems have "nat m = length ?rs" by simp
      with full True step show ?thesis by (simp add: Let_def)
    next
      case False
      then have "int (length ?rs) < m" by simp
      from Cons.IH [OF this] False True step show ?thesis by (simp add: Let_def)
    qed
  qed
qed

lemma scan_files_take:
  assumes "int (length rs) < m"
  shows "scan_files g pat severity (sev_marker severity) component m fs rs =
         take (nat m) (rs @ concat (map (file_hits g pat severity component) fs))"
  using assms
proof (induction fs arbitrary: rs)
  case Nil
  then show ?case by simp
next
  case (Cons f fs)
  show ?case
  proof (cases "g pat f")
    case None
    with Cons show ?thesis by (simp add: file_hits_def)
  next
    case (Some out)
    let ?hs = "rs @ file_hits g pat severity component f"
    have sl: "scan_lines severity (sev_marker severity) component m f (split NL (strip out)) rs =
          (if int (length ?hs) \<ge> m then Inl (take (nat m) ?hs) else Inr ?hs)"
      using scan_lines_take [OF Cons.prems] Some by (simp add: file_hits_def Let_def)
    show ?thesis
    proof (cases "int (length ?hs) \<ge> m")
      case True
      with sl Some show ?thesis by simp
    next
      case False
      then have "int (length ?hs) < m" by simp
      from Cons.IH [OF this] False sl Some show ?thesis by simp
    qed
  qed
qed


text \<open>
  Claim C2, as the code has it. For a limit of at least one, the search returns at most
  that many hits; when the parsed logs of the session exist, the hits returned are the
  first ones, up to the limit, of the hits of the parsed files taken in sorted order, so
  that a file earlier in that order comes before a later one.
\<close>

theorem search_capped:
  assumes "1 \<le> m"
  shows "length (search_logs g fsys ss i pat severity component after before m) \<le> nat m
         \<and> (\<forall>s. ss i = Some s \<and> isdir fsys (path_join (work_dir s) ''parsed'') \<longrightarrow>
               search_logs g fsys ss i pat severity component after before m =
               take (nat m) (all_hits g fsys s pat severity component))"
proof -
  have eq: "search_logs g fsys ss i pat severity component after before m =
            take (nat m) (all_hits g fsys s pat severity component)"
    if "ss i = Some s" and "isdir fsys (path_join (work_dir s) ''parsed'')" for s
    using that assms scan_files_take [of "[]" m g pat severity component]
    by (simp add: search_logs_def all_hits_def Let_def)
  have "length (search_logs g fsys ss i pat severity component after before m) \<le> nat m"
  proof (cases "ss i")
    case None
    then show ?thesis by (simp add: search_logs_def)
  next
    case (Some s)
    show ?thesis
    proof (cases "isdir fsys (path_join (work_dir s) ''parsed'')")
      case True
      with Some eq show ?thesis by simp
    next
      case False
      with Some assms show ?thesis by (simp add: search_logs_def Let_def)
    qed
  qed
  with eq show ?thesis by blast
qed

text \<open>
  With a limit of two, the two hits of \<^verbatim>\<open>a.parsed\<close> are returned and the hit of
  \<^verbatim>\<open>b.parsed\<close> is not, though the file system lists \<^verbatim>\<open>b.parsed\<close> first.
\<close>

theorem search_capped_witness:
  "search_logs grep_output parsed_files [''s1'' \<mapsto> session_with []] ''s1'' ''net'' [] [] [] [] 2 =
     [Hit ''a.parsed'' ''1:|E| net down'', Hit ''a.parsed'' ''4:|W| net slow'']
   \<and> all_hits grep_output parsed_files (session_with []) ''net'' [] [] =
     [Hit ''a.parsed'' ''1:|E| net down'', Hit ''a.parsed'' ''4:|W| net slow'',
      Hit ''b.parsed'' ''2:|E| disk full'']"
proof -
  have m: "(1::int) \<le> 2" by simp
  have s: "[''s1'' \<mapsto> session_with []] ''s1'' = Some (session_with [])" by simp
  have d: "isdir parsed_files (path_join (work_dir (session_with [])) ''parsed'')"
    by code_simp
  have h: "all_hits grep_output parsed_files (session_with []) ''net'' [] [] =
     [Hit ''a.parsed'' ''1:|E| net down'', Hit ''a.parsed'' ''4:|W| net slow'',
      Hit ''b.parsed'' ''2:|E| disk full'']"
    by code_simp
  from search_capped [OF m, of grep_output parsed_files "[''s1'' \<mapsto> session_with []]" "''s1''"
      "''net''" "[]" "[]" "[]" "[]"] s d
  have "search_logs grep_output parsed_files [''s1'' \<mapsto> session_with []] ''s1'' ''net'' [] [] [] [] 2 =
        take (nat 2) (all_hits grep_output parsed_files (session_with []) ''net'' [] [])"
    by blast
  with h show ?thesis by (simp add: numeral_2_eq_2)
qed

text \<open>
  Claim C2, as it is stated, fails for a limit of zero: a session without parsed logs
  gets the placeholder, and a session with parsed logs gets the first hit, which is
  added before the limit is looked at.
\<close>

theorem search_exceeds_zero_limit:
  "search_logs grep_output no_files one_session ''s1'' ''net'' [] [] [] [] 0 = [NotParsed]
   \<and> search_logs grep_output parsed_files one_session ''s1'' ''net'' [] [] [] [] 0 =
     [Hit ''a.parsed'' ''1:|E| net down'']
   \<and> \<not> int (length (search_logs grep_output no_files one_session ''s1'' ''net'' [] [] [] [] 0)) \<le> 0"
  by code_simp

text \<open>
  Claim C8. For every session that exists and whose work directory has no \<^verbatim>\<open>parsed\<close>
  subdirectory, the search returns the placeholder and nothing else, whatever the
  pattern, the filters and the limit.
\<close>

theorem search_not_parsed:
  assumes "ss i = Some s" and "\<not> isdir fsys (path_join (work_dir s) ''parsed'')"
  shows "search_logs g fsys ss i pat severity component after before m = [NotParsed]"
  using assms by (simp add: search_logs_def Let_def)

theorem search_not_parsed_witness:
  "search_logs grep_output no_files [''s1'' \<mapsto> session_with []] ''s1'' ''net'' ''E'' ''disk'' [] [] 50 =
     [NotParsed]"
proof -
  have s: "[''s1'' \<mapsto> session_with []] ''s1'' = Some (session_with [])" by simp
  have d: "\<not> isdir no_files (path_join (work_dir (session_with [])) ''parsed'')"
    by (simp add: no_files_def)
  from search_not_parsed [of "[''s1'' \<mapsto> session_with []]" "''s1''" "session_with []" no_files,
      OF s d]
  show ?thesis .
qed

text \<open>
  Claim C10. A severity whose upper-case form is none of E, W, I, C and N filters
  nothing: the search returns what it returns when no severity is given.
\<close>

theorem unknown_severity_unfiltered:
  assumes "upper severity \<notin> {''E'', ''W'', ''I'', ''C'', ''N''}"
  shows "search_logs g fsys ss i pat severity component after before m =
         search_logs g fsys ss i pat [] component after before m"
proof -
  from assms have "sev_marker severity = []"
    by (simp add: sev_marker_def sev_map_keys [symmetric] del: insert_iff)
  moreover have "sev_marker [] = []" by (simp add: sev_marker_def)
  ultimately show ?thesis
    by (simp add: search_logs_def Let_def scan_files_no_marker [of _ _ severity]
        split: option.splits cong: if_cong)
qed

text \<open>
  The severity \<^verbatim>\<open>x\<close> returns the three lines that no severity returns, where the severity
  \<^verbatim>\<open>e\<close> returns two.
\<close>

theorem unknown_severity_unfiltered_witness:
  "search_logs grep_output parsed_files [''s1'' \<mapsto> session_with []] ''s1'' ''net'' ''x'' [] [] [] 50 =
     [Hit ''a.parsed'' ''1:|E| net down'', Hit ''a.parsed'' ''4:|W| net slow'',
      Hit ''b.parsed'' ''2:|E| disk full'']
   \<and> search_logs grep_output parsed_files [''s1'' \<mapsto> session_with []] ''s1'' ''net'' ''e'' [] [] [] 50 =
     [Hit ''a.parsed'' ''1:|E| net down'', Hit ''b.parsed'' ''2:|E| disk full'']"
proof -
  have u: "upper ''x'' \<notin> {''E'', ''W'', ''I'', ''C'', ''N''}" by code_simp
  have n: "search_logs grep_output parsed_files [''s1'' \<mapsto> session_with []] ''s1'' ''net'' [] [] [] [] 50 =
     [Hit ''a.parsed'' ''1:|E| net down'', Hit ''a.parsed'' ''4:|W| net slow'',
      Hit ''b.parsed'' ''2:|E| disk full'']"
    by code_simp
  have e: "search_logs grep_output parsed_files [''s1'' \<mapsto> session_with []] ''s1'' ''net'' ''e'' [] [] [] 50 =
     [Hit ''a.parsed'' ''1:|E| net down'', Hit ''b.parsed'' ''2:|E| disk full'']"
    by code_simp
  from unknown_severity_unfiltered [OF u, of grep_output parsed_files
      "[''s1'' \<mapsto> session_with []]" "''s1''" "''net''" "[]" "[]" "[]" 50] n
  have "search_logs grep_output parsed_files [''s1'' \<mapsto> session_with []] ''s1'' ''net'' ''x'' [] [] [] 50 =
     [Hit ''a.parsed'' ''1:|E| net down'', Hit ''a.parsed'' ''4:|W| net slow'',
      Hit ''b.parsed'' ''2:|E| disk full'']"
    by (rule trans)
  from this e show ?thesis by (rule conjI)
qed

subsection \<open>The process runner\<close>

text \<open>
  Claim C4, as the code has it. When the analyzer runs into the time limit,
  \<^verbatim>\<open>run_analyzer\<close> returns the exit code 124, an empty standard output and the message
  \<^verbatim>\<open>Timeout after <timeout>s\<close>; when the launch raises, it returns the exit code 1, an
  empty standard output and the text of the error; and the return code of an analyzer
  that completes is passed on as it is, whatever it is.
\<close>

theorem run_analyzer_outcomes:
  assumes "proc ([''bash'', ANALYZER] @ args) t fsys = (oc, fsys')"
  shows "(oc = TimeoutExpired \<longrightarrow>
            run_analyzer proc args t fsys =
              ((124, [], ''Timeout after '' @ str_nat t @ ''s''), fsys'))
         \<and> (\<forall>e. oc = Raised e \<longrightarrow> run_analyzer proc args t fsys = ((1, [], e), fsys'))
         \<and> (\<forall>rc out err. oc = Completed rc out err \<longrightarrow>
               run_analyzer proc args t fsys = ((rc, out, err), fsys'))"
  using assms by (simp add: run_analyzer_def)

text \<open>A check that times out after 15 seconds, and a check that cannot be launched.\<close>

theorem run_analyzer_outcomes_witness:
  "run_analyzer times_out [''--check''] 15 no_files = ((124, [], ''Timeout after 15s''), no_files)
   \<and> run_analyzer launch_fails [''--check''] 15 no_files =
       ((1, [], ''[Errno 2] No such file or directory''), no_files)"
proof -
  have t: "times_out ([''bash'', ANALYZER] @ [''--check'']) 15 no_files = (TimeoutExpired, no_files)"
    by (simp add: times_out_def)
  have l: "launch_fails ([''bash'', ANALYZER] @ [''--check'']) 15 no_files =
           (Raised ''[Errno 2] No such file or directory'', no_files)"
    by (simp add: launch_fails_def)
  have n: "str_nat 15 = ''15''" by code_simp
  from run_analyzer_outcomes [of times_out "[''--check'']" 15 no_files, OF t]
    run_analyzer_outcomes [of launch_fails "[''--check'']" 15 no_files, OF l] n
  show ?thesis by simp
qed

text \<open>
  Claim C4, as it is stated, fails: the exit code returned for an analyzer that ends
  with the return code 124 is the exit code returned for a timeout.
\<close>

theorem sentinel_not_reserved:
  "fst (fst (run_analyzer exits_124 [''--check''] 15 no_files)) =
   fst (fst (run_analyzer times_out [''--check''] 15 no_files))"
  by (simp add: run_analyzer_def exits_124_def times_out_def)

subsection \<open>The analysis request\<close>

lemma fnmatch_star: "fnmatch n ''*''"
  by (induction n) auto

lemma glob_star_listed:
  "(glob fsys d ''*'' \<noteq> []) = (\<exists>n\<in>set (listdir fsys d). \<not> startswith n ''.'')"
  by (auto simp: glob_def fnmatch_star filter_empty_conv)

text \<open>
  Claim C9, as the code has it. For a request on a session that exists, the reply is
  sent with the code 200, it carries the exit code of the run, and its flag \<^verbatim>\<open>ok\<close> is
  true exactly when, after the run, the reports directory has an entry whose name does
  not begin with a dot, be it a file or not, whatever the exit code. When there is such
  an entry the session ends in the state \<^verbatim>\<open>done\<close>; otherwise its state is the one the
  exit code gave it.
\<close>

theorem analyze_ok_iff_entry_listed:
  assumes "ss (b_session_id body) = Some s"
    and "run_analyzer proc (analyze_args s body) 180 fsys = ((rc, out, err), fsys')"
    and "analyze proc fsys ss body = (reply, ss', fsys'')"
  shows "\<exists>r s'. reply = Ok r \<and> ss' (b_session_id body) = Some s' \<and> fsys'' = fsys'
           \<and> a_exit_code r = rc
           \<and> (a_ok r \<longleftrightarrow> (\<exists>n\<in>set (listdir fsys' (reports_dir s)). \<not> startswith n ''.''))
           \<and> ((\<exists>n\<in>set (listdir fsys' (reports_dir s)). \<not> startswith n ''.'') \<longrightarrow>
                 state s' = ''done'')
           \<and> (\<not> (\<exists>n\<in>set (listdir fsys' (reports_dir s)). \<not> startswith n ''.'') \<longrightarrow>
                 state s' = (if rc = 0 then ''done'' else ''error''))"
proof -
  let ?listed = "\<exists>n\<in>set (listdir fsys' (reports_dir s)). \<not> startswith n ''.''"
  have g: "(glob fsys' (reports_dir s) ''*'' \<noteq> []) = ?listed"
    by (rule glob_star_listed)
  show ?thesis
  proof (cases ?listed)
    case True
    with g have "glob fsys' (reports_dir s) ''*'' \<noteq> []" by simp
    with True assms show ?thesis
      by (auto simp: analyze_def Let_def split: option.splits)
  next
    case False
    with g have "glob fsys' (reports_dir s) ''*'' = []" by simp
    with False assms show ?thesis
      by (auto simp: analyze_def Let_def split: option.splits)
  qed
qed

text \<open>
  An analyzer that writes a report and ends with the return code 1: the flag is true,
  the exit code is 1 and the session is \<^verbatim>\<open>done\<close>.
\<close>

theorem analyze_ok_iff_entry_listed_witness:
  "(case analyze fails_with_report no_files [''s1'' \<mapsto> session_with []] standard_body of
      (reply, ss', fsys') \<Rightarrow>
        (case reply of
           Ok r \<Rightarrow> a_ok r \<and> a_exit_code r = 1
         | Error c m \<Rightarrow> False)
        \<and> map_option state (ss' ''s1'') = Some ''done''
        \<and> listdir fsys' ''/w/s1/reports'' = [''report.html''])"
proof -
  let ?ss = "[''s1'' \<mapsto> session_with []]"
  obtain reply ss' fsys'' where a:
    "analyze fails_with_report no_files ?ss standard_body = (reply, ss', fsys'')"
    by (cases "analyze fails_with_report no_files ?ss standard_body") auto
  obtain fsys' where r:
    "run_analyzer fails_with_report (analyze_args (session_with []) standard_body) 180 no_files =
       ((1, ''Device ID: dev42'' @ [NL], ''parse error''), fsys')"
    and g: "listdir fsys' ''/w/s1/reports'' = [''report.html'']"
    by (simp add: run_analyzer_def fails_with_report_def)
  have s: "?ss (b_session_id standard_body) = Some (session_with [])"
    by (simp add: standard_body_def)
  have p: "reports_dir (session_with []) = ''/w/s1/reports''"
    by (simp add: session_with_def)
  from analyze_ok_iff_entry_listed [OF s r a] obtain r' s' where
    "reply = Ok r'" "ss' (b_session_id standard_body) = Some s'" "fsys'' = fsys'"
    "a_exit_code r' = 1" "a_ok r'" "state s' = ''done''"
    unfolding p g by auto
  then show ?thesis using a g by (simp add: standard_body_def)
qed

text \<open>
  Claim C9, as it is stated, fails. After a run that leaves the hidden file
  \<^verbatim>\<open>.report.html\<close> and nothing else, the reports directory holds a file and the flag is
  false; after a run that leaves the directory \<^verbatim>\<open>charts\<close> and nothing else, the reports
  directory holds no file and the flag is true.
\<close>

theorem analyze_ok_is_not_a_file:
  "reply_ok (fst (analyze writes_hidden_report no_files one_session standard_body)) = Some False
   \<and> listdir (snd (snd (analyze writes_hidden_report no_files one_session standard_body)))
       ''/w/s1/reports'' = [''.report.html'']
   \<and> isfile (snd (snd (analyze writes_hidden_report no_files one_session standard_body)))
       ''/w/s1/reports/.report.html''
   \<and> reply_ok (fst (analyze writes_directory no_files one_session standard_body)) = Some True
   \<and> listdir (snd (snd (analyze writes_directory no_files one_session standard_body)))
       ''/w/s1/reports'' = [''charts'']
   \<and> \<not> isfile (snd (snd (analyze writes_directory no_files one_session standard_body)))
       ''/w/s1/reports/charts''"
  by code_simp

subsection \<open>The session routes\<close>









subsection \<open>The signature catalog\<close>

lemma registry_loop_rows:
  assumes "col_map \<noteq> []"
  shows "registry_loop col_map lines sigs =
         sigs @ map (\<lambda>line. registry_entry col_map (split TAB line))
                  (filter (\<lambda>line. line \<noteq> [] \<and> \<not> startswith line ''#''
                                   \<and> length (split TAB line) \<ge> 4)
                     (map strip lines))"
  using assms by (induction lines arbitrary: sigs) (auto simp: Let_def)

text \<open>
  Claim C7. For every row of the registry, a column whose name is not in the header, or
  whose index is not below the length of the row, is read as the default given for it,
  and no lookup raises; the defaults are \<^verbatim>\<open>MEDIUM\<close> for the severity, \<^verbatim>\<open>false\<close> for the
  on-site flag and the empty text for the other columns. After the header, the entries
  added are those of the rows that are neither empty nor comments and have at least four
  columns, in their order: a row of fewer than four columns adds no entry.
\<close>

theorem registry_defaults:
  "(dict_get col_map name = None \<longrightarrow> col col_map parts name dflt = dflt)
   \<and> (\<forall>idx. dict_get col_map name = Some idx \<and> length parts \<le> idx \<longrightarrow>
         col col_map parts name dflt = dflt)
   \<and> (\<forall>idx. dict_get col_map name = Some idx \<and> idx < length parts \<longrightarrow>
         col col_map parts name dflt = parts ! idx)
   \<and> g_severity (registry_entry col_map parts) = col col_map parts ''severity'' ''MEDIUM''
   \<and> g_onSiteRequired (registry_entry col_map parts) =
       Some (col col_map parts ''onSiteServiceRequired'' ''false'')
   \<and> g_pattern (registry_entry col_map parts) = col col_map parts ''name'' []
   \<and> g_component (registry_entry col_map parts) = col col_map parts ''module'' []
   \<and> g_title (registry_entry col_map parts) = col col_map parts ''description'' []
   \<and> g_root_cause (registry_entry col_map parts) = col col_map parts ''description'' []
   \<and> g_fix (registry_entry col_map parts) = col col_map parts ''troubleshootingSteps'' []
   \<and> g_module (registry_entry col_map parts) = Some (col col_map parts ''module'' [])
   \<and> g_errorType (registry_entry col_map parts) = Some (col col_map parts ''errorType'' [])
   \<and> (col_map \<noteq> [] \<longrightarrow>
         registry_loop col_map lines sigs =
           sigs @ map (\<lambda>line. registry_entry col_map (split TAB line))
                    (filter (\<lambda>line. line \<noteq> [] \<and> \<not> startswith line ''#''
                                     \<and> length (split TAB line) \<ge> 4)
                       (map strip lines)))"
proof -
  have "col col_map parts name dflt = dflt" if "dict_get col_map name = None"
    using that by (simp add: col_def)
  moreover have "col col_map parts name dflt = dflt"
    if "dict_get col_map name = Some idx" and "length parts \<le> idx" for idx
    using that by (simp add: col_def)
  moreover have "col col_map parts name dflt = parts ! idx"
    if "dict_get col_map name = Some idx" and "idx < length parts" for idx
    using that by (simp add: col_def)
  ultimately show ?thesis
    by (simp add: registry_entry_def registry_loop_rows)
qed

text \<open>
  The registry of the example gives one entry, with the severity \<^verbatim>\<open>MEDIUM\<close> and the
  on-site flag \<^verbatim>\<open>false\<close>, for its row of four columns and none for its row of three.
\<close>

theorem registry_defaults_witness:
  "load_signatures None (Some registry_lines) =
     [\<lparr>g_pattern = ''E1'', g_component = ''net'', g_severity = ''MEDIUM'',
       g_title = ''link down'', g_root_cause = ''link down'', g_fix = [], g_kb_url = [],
       g_source = ''registry'', g_module = Some ''net'', g_errorType = Some ''fatal'',
       g_onSiteRequired = Some ''false''\<rparr>]
   \<and> g_severity (registry_entry (header_map [''name'', ''module'', ''description'', ''errorType''])
        [''E1'', ''net'', ''link down'', ''fatal'']) = ''MEDIUM''
   \<and> col (header_map [''name'', ''module'', ''description'', ''errorType'']) [''E2'', ''disk'', ''full'']
        ''errorType'' ''none'' = ''none''
   \<and> registry_loop (header_map [''name'', ''module'', ''description'', ''errorType''])
        [''E2'' @ [TAB] @ ''disk'' @ [TAB] @ ''full'' @ [NL]] [] = []"
proof -
  let ?cm = "header_map [''name'', ''module'', ''description'', ''errorType'']"
  let ?row = "''E2'' @ [TAB] @ ''disk'' @ [TAB] @ ''full'' @ [NL]"
  have l: "load_signatures None (Some registry_lines) =
     [\<lparr>g_pattern = ''E1'', g_component = ''net'', g_severity = ''MEDIUM'',
       g_title = ''link down'', g_root_cause = ''link down'', g_fix = [], g_kb_url = [],
       g_source = ''registry'', g_module = Some ''net'', g_errorType = Some ''fatal'',
       g_onSiteRequired = Some ''false''\<rparr>]"
    by code_simp
  have a: "dict_get ?cm ''severity'' = None" by code_simp
  have b: "dict_get ?cm ''errorType'' = Some 3" "length [''E2'', ''disk'', ''full''] \<le> 3"
    by code_simp+
  have c: "?cm \<noteq> []" "length (split TAB (strip ?row)) < 4" by code_simp+
  from registry_defaults [of ?cm "''severity''" "[''E1'', ''net'', ''link down'', ''fatal'']" "''MEDIUM''"] a
  have r1: "g_severity (registry_entry ?cm [''E1'', ''net'', ''link down'', ''fatal'']) = ''MEDIUM''"
    by simp
  from registry_defaults [of ?cm "''errorType''" "[''E2'', ''disk'', ''full'']" "''none''"] b
  have r2: "col ?cm [''E2'', ''disk'', ''full''] ''errorType'' ''none'' = ''none''"
    by blast
  from registry_defaults [of ?cm _ _ _ "[?row]" "[]"] c
  have r3: "registry_loop ?cm [?row] [] = []"
    by simp
  from l r1 r2 r3 show ?thesis by blast
qed

subsection \<open>The health of a session\<close>

lemma match_here_first: "match_here r s = first_match r [] s"
  by (simp add: match_here_def first_match_def)

lemma first_Lit:
  "first_match (Lit w) g s = (if startswith s w then Some (g, drop (length w) s) else None)"
  by (simp add: first_match_def)

lemma first_Cls:
  "first_match (Cls p) g s = (case s of [] \<Rightarrow> None | c # cs \<Rightarrow> if p c then Some (g, cs) else None)"
  by (simp add: first_match_def split: list.splits)

lemma star_greedy_hd: "\<exists>ts. star_greedy p s = dropWhile p s # ts"
  by (induction s) auto

lemma first_Star: "first_match (Star p) g s = Some (g, dropWhile p s)"
  using star_greedy_hd [of p s] by (auto simp: first_match_def)

lemma first_Plus:
  "first_match (Plus p) g s =
     (case s of [] \<Rightarrow> None | c # cs \<Rightarrow> if p c then Some (g, dropWhile p cs) else None)"
proof (cases s)
  case Nil
  then show ?thesis by (simp add: first_match_def plus_greedy_def)
next
  case (Cons c cs)
  with star_greedy_hd [of p cs] show ?thesis
    by (auto simp: first_match_def plus_greedy_def)
qed

lemma first_Grp:
  "first_match (Grp n r) g s =
     map_option (\<lambda>m. ((n, take (length s - length (snd m)) s) # fst m, snd m)) (first_match r g s)"
  by (simp add: first_match_def split: list.splits)

lemma first_Seq:
  assumes "first_match a g s = Some m'" and "first_match b (fst m') (snd m') = Some m"
  shows "first_match (Seq a b) g s = Some m"
  using assms by (auto simp: first_match_def split: list.splits)

lemma first_seqs:
  assumes "first_match r g s = Some m'" and "first_match (seqs (r' # rs)) (fst m') (snd m') = Some m"
  shows "first_match (seqs (r # r' # rs)) g s = Some m"
  using assms by (simp add: first_Seq)

lemma search_here: "match_here r s = Some m \<Longrightarrow> search r s = Some (fst m)"
  by (cases s) auto

lemma search_skip:
  "\<forall>k<length pre. match_here r (drop k (pre @ t)) = None \<Longrightarrow> search r (pre @ t) = search r t"
proof (induction pre)
  case Nil
  then show ?case by simp
next
  case (Cons c pre)
  from Cons.prems have "match_here r (c # pre @ t) = None" by fastforce
  moreover have "\<forall>k<length pre. match_here r (drop k (pre @ t)) = None"
  proof (intro allI impI)
    fix k assume "k < length pre"
    then have "Suc k < length (c # pre)" by simp
    with Cons.prems have "match_here r (drop (Suc k) ((c # pre) @ t)) = None" by blast
    then show "match_here r (drop k (pre @ t)) = None" by simp
  qed
  ultimately show ?case using Cons.IH by simp
qed

lemma digit_not_space: "is_digit c \<Longrightarrow> \<not> is_space c"
  by (auto simp: is_digit_def is_space_def in_range_def)

lemma grade_not_space: "is_grade c \<Longrightarrow> \<not> is_space c"
  by (auto simp: is_grade_def is_space_def in_range_def)

lemma space_chars: "is_space (CHR '' '')" "\<not> is_space (CHR ''/'')" "\<not> is_space (CHR ''1'')"
  "\<not> is_space (CHR ''G'')" "\<not> is_space (CHR ''('')" "\<not> is_digit (CHR ''/'')"
  by (simp_all add: is_space_def is_digit_def in_range_def code_def)

lemma health1_here:
  assumes "is_digit d" and "\<forall>c\<in>set ds. is_digit c" and "is_grade g"
  shows "match_here health_rx1 (''Health Score: '' @ (d # ds) @ ''/100 Grade: '' @ [g] @ post) =
         Some ([(2, [g]), (1, d # ds)], post)"
  unfolding match_here_first health_rx1_def
  apply (rule first_seqs, simp add: first_Lit)
  apply (rule first_seqs, simp add: first_Star space_chars digit_not_space assms)
  apply (rule first_seqs, simp add: first_Grp first_Plus assms dropWhile_append2 space_chars)
  apply (rule first_seqs, simp add: first_Star space_chars)
  apply (rule first_seqs, simp add: first_Lit)
  apply (rule first_seqs, simp add: first_Star space_chars)
  apply (rule first_seqs, simp add: first_Lit)
  apply (rule first_seqs, simp add: first_Star space_chars)
  apply (rule first_seqs, simp add: first_Lit)
  apply (rule first_seqs, simp add: first_Star space_chars grade_not_space assms)
  apply (simp add: first_Grp first_Cls assms)
  done


lemma health2_here:
  assumes "is_digit d" and "\<forall>c\<in>set ds. is_digit c" and "is_grade g"
  shows "match_here health_rx2 (''Health Score: '' @ (d # ds) @ ''/100 ('' @ [g] @ '')'' @ post) =
         Some ([(2, [g]), (1, d # ds)], post)"
  unfolding match_here_first health_rx2_def
  apply (rule first_seqs, simp add: first_Lit)
  apply (rule first_seqs, simp add: first_Star space_chars digit_not_space assms)
  apply (rule first_seqs, simp add: first_Grp first_Plus assms dropWhile_append2 space_chars)
  apply (rule first_seqs, simp add: first_Lit)
  apply (rule first_seqs, simp add: first_Star space_chars)
  apply (rule first_seqs, simp add: first_Lit)
  apply (rule first_seqs, simp add: first_Grp first_Cls assms)
  apply (simp add: first_Lit)
  done

lemma digit_not_int_space: "is_digit c \<Longrightarrow> \<not> is_int_space c"
  by (auto simp: is_digit_def is_int_space_def in_range_def)

lemma digit_not_sign: "is_digit c \<Longrightarrow> c \<noteq> CHR ''-'' \<and> c \<noteq> CHR ''+'' \<and> c \<noteq> CHR ''_''"
  by (auto simp: is_digit_def in_range_def code_def)

lemma digits_ok_digits: "ds \<noteq> [] \<Longrightarrow> \<forall>c\<in>set ds. is_digit c \<Longrightarrow> digits_ok ds"
  by (induction ds rule: digits_ok.induct) (auto simp: digit_not_sign)

lemma int_strip_digits:
  assumes "ds \<noteq> []" and "\<forall>c\<in>set ds. is_digit c"
  shows "int_strip ds = ds"
proof -
  from assms have "\<not> is_int_space (hd ds)" "\<not> is_int_space (last ds)"
    by (simp_all add: digit_not_int_space)
  with assms(1) have "dropWhile is_int_space ds = ds"
    and "dropWhile is_int_space (rev ds) = rev ds"
    by (simp_all add: dropWhile_eq_self_iff hd_rev)
  then show ?thesis by (simp add: int_strip_def)
qed

lemma py_int_digits:
  assumes "ds \<noteq> []" and "\<forall>c\<in>set ds. is_digit c"
  shows "py_int ds = (if length ds \<le> 4300 then Inr (int (decimal ds)) else Inl ValueError)"
proof -
  from assms obtain c cs where ds: "ds = c # cs" and c: "is_digit c" by (cases ds) auto
  from assms have f: "filter is_digit ds = ds" by (simp add: filter_id_conv)
  from assms have "unsigned_int ds =
      (if length ds \<le> 4300 then Inr (int (decimal ds)) else Inl ValueError)"
    by (simp add: unsigned_int_def f digits_ok_digits)
  with digit_not_sign [OF c] int_strip_digits [OF assms] show ?thesis
    by (simp add: py_int_def ds)
qed

lemma to_health_groups:
  assumes "ds \<noteq> []" and "\<forall>c\<in>set ds. is_digit c"
  shows "to_health [(2, [g]), (1, ds)] =
           (if length ds \<le> 4300 then Inr \<lparr>score = int (decimal ds), grade = [g]\<rparr>
            else Inl ValueError)"
  using py_int_digits [OF assms] by (simp add: to_health_def group_def)

lemma extract_health_found1:
  assumes "search health_rx1 out = Some m"
  shows "extract_health out = map_sum id Some (to_health m)"
  using assms by (simp add: extract_health_def)

lemma extract_health_found2:
  assumes "search health_rx1 out = None" and "search health_rx2 out = Some m"
  shows "extract_health out = map_sum id Some (to_health m)"
  using assms by (simp add: extract_health_def)

lemma extract_health_none:
  assumes "search health_rx1 out = None" and "search health_rx2 out = None"
  shows "extract_health out = Inr None"
  using assms by (simp add: extract_health_def)

lemma parse_health:
  assumes "ss i = Some s" and "list_reports fsys (reports_dir s) = Inr rs"
    and "extract_health (stdout s) = Inr h"
  shows "\<exists>r. parse_session_results fsys ss i = Inr (Some r) \<and> health_of r = h"
  using assms by (simp add: parse_session_results_def)

text \<open>
  Claim C6, as the code has it. Take a session whose reports can be listed, the digits
  \<open>ds\<close> of a number, at most 4300 of them, and a letter \<open>g\<close> from A to F. When the output
  holds \<^verbatim>\<open>Health Score: ds/100 Grade: g\<close> and the first pattern has no match that begins
  before it, the extractor returns a result whose health is the value of \<open>ds\<close> with the
  grade \<open>g\<close>, whatever else the output holds. When the first pattern has no match at
  all and the output holds \<^verbatim>\<open>Health Score: ds/100 (g)\<close>, with no match of the second
  pattern beginning before it, the result has the same health. When neither pattern has
  a match the extractor returns a result whose health is unset.
\<close>

theorem health_layouts:
  assumes "ss i = Some s" and "list_reports fsys (reports_dir s) = Inr rs"
    and "ds \<noteq> []" and "\<forall>c\<in>set ds. is_digit c" and "length ds \<le> 4300" and "is_grade g"
  shows "(\<forall>pre post.
            stdout s = pre @ ''Health Score: '' @ ds @ ''/100 Grade: '' @ [g] @ post
            \<and> (\<forall>k<length pre. match_here health_rx1 (drop k (stdout s)) = None)
            \<longrightarrow> (\<exists>r. parse_session_results fsys ss i = Inr (Some r)
                      \<and> health_of r = Some \<lparr>score = int (decimal ds), grade = [g]\<rparr>))
         \<and> (\<forall>pre post.
            stdout s = pre @ ''Health Score: '' @ ds @ ''/100 ('' @ [g] @ '')'' @ post
            \<and> search health_rx1 (stdout s) = None
            \<and> (\<forall>k<length pre. match_here health_rx2 (drop k (stdout s)) = None)
            \<longrightarrow> (\<exists>r. parse_session_results fsys ss i = Inr (Some r)
                      \<and> health_of r = Some \<lparr>score = int (decimal ds), grade = [g]\<rparr>))
         \<and> (search health_rx1 (stdout s) = None \<and> search health_rx2 (stdout s) = None
            \<longrightarrow> (\<exists>r. parse_session_results fsys ss i = Inr (Some r) \<and> health_of r = None))"
proof -
  let ?out = "stdout s"
  let ?h = "\<lparr>score = int (decimal ds), grade = [g]\<rparr>"
  from assms(3,4) obtain d ds' where ds: "ds = d # ds'" and d: "is_digit d"
    and ds': "\<forall>c\<in>set ds'. is_digit c"
    by (cases ds) auto
  have groups: "map_sum id Some (to_health [(2, [g]), (1, ds)]) = Inr (Some ?h)"
    using to_health_groups [OF assms(3,4)] assms(5) by simp
  have one: "\<exists>r. parse_session_results fsys ss i = Inr (Some r) \<and> health_of r = Some ?h"
    if out: "?out = pre @ ''Health Score: '' @ ds @ ''/100 Grade: '' @ [g] @ post"
      and first: "\<forall>k<length pre. match_here health_rx1 (drop k ?out) = None"
    for pre post
  proof -
    let ?t = "''Health Score: '' @ (d # ds') @ ''/100 Grade: '' @ [g] @ post"
    have "search health_rx1 (pre @ ?t) = search health_rx1 ?t"
      using first unfolding out ds by (rule search_skip)
    also have "\<dots> = Some [(2, [g]), (1, d # ds')]"
      using search_here [OF health1_here [OF d ds' assms(6)]] by simp
    finally have "search health_rx1 ?out = Some [(2, [g]), (1, ds)]"
      unfolding out ds .
    then have "extract_health ?out = Inr (Some ?h)"
      by (simp only: extract_health_found1 groups)
    with assms(1,2) show ?thesis by (rule parse_health)
  qed
  have two: "\<exists>r. parse_session_results fsys ss i = Inr (Some r) \<and> health_of r = Some ?h"
    if out: "?out = pre @ ''Health Score: '' @ ds @ ''/100 ('' @ [g] @ '')'' @ post"
      and none: "search health_rx1 ?out = None"
      and first: "\<forall>k<length pre. match_here health_rx2 (drop k ?out) = None"
    for pre post
  proof -
    let ?t = "''Health Score: '' @ (d # ds') @ ''/100 ('' @ [g] @ '')'' @ post"
    have "search health_rx2 (pre @ ?t) = search health_rx2 ?t"
      using first unfolding out ds by (rule search_skip)
    also have "\<dots> = Some [(2, [g]), (1, d # ds')]"
      using search_here [OF health2_here [OF d ds' assms(6)]] by simp
    finally have "search health_rx2 ?out = Some [(2, [g]), (1, ds)]"
      unfolding out ds .
    with none have "extract_health ?out = Inr (Some ?h)"
      by (simp only: extract_health_found2 groups)
    with assms(1,2) show ?thesis by (rule parse_health)
  qed
  have three: "\<exists>r. parse_session_results fsys ss i = Inr (Some r) \<and> health_of r = None"
    if "search health_rx1 ?out = None" and "search health_rx2 ?out = None"
    using assms(1,2) extract_health_none [OF that] by (rule parse_health)
  show ?thesis
  proof (intro conjI allI impI)
    fix pre post
    assume "?out = pre @ ''Health Score: '' @ ds @ ''/100 Grade: '' @ [g] @ post
            \<and> (\<forall>k<length pre. match_here health_rx1 (drop k ?out) = None)"
    then show "\<exists>r. parse_session_results fsys ss i = Inr (Some r) \<and> health_of r = Some ?h"
      using one [of pre post] by (elim conjE)
  next
    fix pre post
    assume "?out = pre @ ''Health Score: '' @ ds @ ''/100 ('' @ [g] @ '')'' @ post
            \<and> search health_rx1 ?out = None
            \<and> (\<forall>k<length pre. match_here health_rx2 (drop k ?out) = None)"
    then show "\<exists>r. parse_session_results fsys ss i = Inr (Some r) \<and> health_of r = Some ?h"
      using two [of pre post] by (elim conjE)
  next
    assume "search health_rx1 ?out = None \<and> search health_rx2 ?out = None"
    then show "\<exists>r. parse_session_results fsys ss i = Inr (Some r) \<and> health_of r = None"
      using three by (elim conjE)
  qed
qed

text \<open>
  The two layouts of the specification, each after the word \<^verbatim>\<open>ok\<close>, give the score 87
  with the grade B; a grade that is no letter from A to F gives a result without health.
\<close>

theorem health_layouts_witness:
  "map_sum id (map_option health_of)
     (parse_session_results no_files
        (store_with (''ok '' @ ''Health Score: '' @ ''87'' @ ''/100 Grade: '' @ ''B'' @ '' end''))
        ''s1'') = Inr (Some (Some \<lparr>score = 87, grade = ''B''\<rparr>))
   \<and> map_sum id (map_option health_of)
       (parse_session_results no_files
          (store_with (''ok '' @ ''Health Score: '' @ ''87'' @ ''/100 ('' @ ''B'' @ '')'' @ '' end''))
          ''s1'') = Inr (Some (Some \<lparr>score = 87, grade = ''B''\<rparr>))
   \<and> map_sum id (map_option health_of)
       (parse_session_results no_files (store_with ''Health Score: 87/100 (G)'') ''s1'') =
       Inr (Some None)"
proof -
  let ?a = "''ok '' @ ''Health Score: '' @ ''87'' @ ''/100 Grade: '' @ ''B'' @ '' end''"
  let ?b = "''ok '' @ ''Health Score: '' @ ''87'' @ ''/100 ('' @ ''B'' @ '')'' @ '' end''"
  let ?c = "''Health Score: 87/100 (G)''"
  have s: "store_with out ''s1'' = Some (session_with out)" for out
    by (simp add: store_with_def)
  have o: "stdout (session_with out) = out" for out
    by (simp add: session_with_def)
  have l: "list_reports no_files (reports_dir (session_with out)) = Inr []" for out
  proof -
    have "list_reports no_files ''/w/s1/reports'' = Inr []" by code_simp
    then show ?thesis by (simp add: session_with_def)
  qed
  have h: "''87'' \<noteq> []" "\<forall>c\<in>set ''87''. is_digit c" "length ''87'' \<le> 4300"
    "is_grade (CHR ''B'')"
    by code_simp+
  have v: "int (decimal ''87'') = 87" by code_simp
  have fa: "\<forall>k<length ''ok ''. match_here health_rx1 (drop k ?a) = None"
  proof (intro allI impI)
    fix k :: nat assume "k < length ''ok ''"
    then consider "k = 0" | "k = 1" | "k = 2" by fastforce
    then show "match_here health_rx1 (drop k ?a) = None"
    proof cases
      case 1 then show ?thesis by simp code_simp
    next
      case 2 then show ?thesis by simp code_simp
    next
      case 3 then show ?thesis by simp code_simp
    qed
  qed
  have fb: "\<forall>k<length ''ok ''. match_here health_rx2 (drop k ?b) = None"
  proof (intro allI impI)
    fix k :: nat assume "k < length ''ok ''"
    then consider "k = 0" | "k = 1" | "k = 2" by fastforce
    then show "match_here health_rx2 (drop k ?b) = None"
    proof cases
      case 1 then show ?thesis by simp code_simp
    next
      case 2 then show ?thesis by simp code_simp
    next
      case 3 then show ?thesis by simp code_simp
    qed
  qed
  have nb: "search health_rx1 ?b = None" by code_simp
  have nc: "search health_rx1 ?c = None" "search health_rx2 ?c = None" by code_simp+
  note ta = health_layouts
    [where ss = "store_with ?a" and i = "''s1''" and s = "session_with ?a" and fsys = no_files,
     OF s l h, unfolded o v]
  note tb = health_layouts
    [where ss = "store_with ?b" and i = "''s1''" and s = "session_with ?b" and fsys = no_files,
     OF s l h, unfolded o v]
  note tc = health_layouts
    [where ss = "store_with ?c" and i = "''s1''" and s = "session_with ?c" and fsys = no_files,
     OF s l h, unfolded o v]
  from ta [THEN conjunct1, THEN spec, THEN spec, THEN mp, of "''ok ''" "'' end''"] fa
  obtain ra where ra: "parse_session_results no_files (store_with ?a) ''s1'' = Inr (Some ra)"
    "health_of ra = Some \<lparr>score = 87, grade = ''B''\<rparr>"
    by auto
  from tb [THEN conjunct2, THEN conjunct1, THEN spec, THEN spec, THEN mp,
           of "''ok ''" "'' end''"] fb nb
  obtain rb where rb: "parse_session_results no_files (store_with ?b) ''s1'' = Inr (Some rb)"
    "health_of rb = Some \<lparr>score = 87, grade = ''B''\<rparr>"
    by auto
  from tc [THEN conjunct2, THEN conjunct2, THEN mp] nc
  obtain rc where rc: "parse_session_results no_files (store_with ?c) ''s1'' = Inr (Some rc)"
    "health_of rc = None"
    by auto
  from ra rb rc show ?thesis by simp
qed

lemma long_score_digits:
  "replicate 4301 (CHR ''9'') = CHR ''9'' # replicate 4300 (CHR ''9'')"
proof -
  have "(4301::nat) = Suc 4300" by simp
  then show ?thesis by (simp only: replicate_Suc)
qed

lemma long_score_raises: "extract_health long_score = Inl ValueError"
proof -
  have d: "is_digit (CHR ''9'')" "is_grade (CHR ''B'')" by code_simp+
  then have ds: "\<forall>c\<in>set (replicate 4300 (CHR ''9'')). is_digit c" by simp
  have "match_here health_rx1
          (''Health Score: '' @ (CHR ''9'' # replicate 4300 (CHR ''9'')) @ ''/100 Grade: '' @
           [CHR ''B''] @ []) =
        Some ([(2, [CHR ''B'']), (1, CHR ''9'' # replicate 4300 (CHR ''9''))], [])"
    using d(1) ds d(2) by (rule health1_here)
  then have "search health_rx1 long_score =
             Some [(2, [CHR ''B'']), (1, replicate 4301 (CHR ''9''))]"
    unfolding long_score_def long_score_digits by (simp add: search_here)
  moreover have "to_health [(2, [CHR ''B'']), (1, replicate 4301 (CHR ''9''))] = Inl ValueError"
    using to_health_groups [of "replicate 4301 (CHR ''9'')" "CHR ''B''"] d(1) by simp
  ultimately show ?thesis by (simp add: extract_health_found1)
qed

text \<open>
  Claim C6, as it is stated, fails. An output with the first layout and a score of 4301
  digits makes \<^verbatim>\<open>int\<close> raise \<^verbatim>\<open>ValueError\<close>, and the extractor returns no result; so
  does, with \<^verbatim>\<open>OSError\<close>, a session whose reports hold a link to nothing, whatever its
  output.
\<close>

theorem health_extraction_raises:
  "parse_session_results no_files (store_with long_score) ''s1'' = Inl ValueError
   \<and> parse_session_results dangling_report (store_with ''Health Score: 87/100 Grade: B'') ''s1'' =
       Inl OSError"
proof -
  have "list_reports no_files ''/w/s1/reports'' = Inr []" by code_simp
  with long_score_raises
  have a: "parse_session_results no_files (store_with long_score) ''s1'' = Inl ValueError"
    by (simp add: parse_session_results_def store_with_def session_with_def)
  have b: "parse_session_results dangling_report (store_with ''Health Score: 87/100 Grade: B'')
             ''s1'' = Inl OSError"
    by code_simp
  from a b show ?thesis by (rule conjI)
qed

end
